theory Spec2Isabelle
  imports Complex_Main
begin

section \<open>The Jira issue scraper (jira_scraper.py)\<close>

text \<open>
  A shallow embedding of \<^verbatim>\<open>jira_scraper.py\<close>: the retrying transport \<^verbatim>\<open>jira_get\<close>
  with \<^verbatim>\<open>backoff_sleep\<close>, the checkpoint store, the record assembly and the page loop of
  \<^verbatim>\<open>scrape_project\<close> with its final renames.

  Effects are explicit. The remote server, the random number generator, the text
  libraries (BeautifulSoup, dateutil) and the failures of the operating system are the
  environment \<open>env\<close>; the files, the number of HTTP attempts made so far and the
  chronological list of observable effects are the state \<open>world\<close>. A Python exception is
  the \<open>Inl\<close> of a sum, returned together with the state reached when it was raised. The
  two \<^verbatim>\<open>while True\<close> loops are partial functions in the option monad: \<open>None\<close> is a loop
  that never returns.

  Text is a list of characters with code points below 256 (an HTTP header as
  \<^verbatim>\<open>requests\<close> decodes it); JSON values have the types the Jira REST API documents
  (strings, integers, lists, and objects that may be missing or \<^verbatim>\<open>null\<close>).
\<close>

subsection \<open>Data\<close>

text \<open>
  The exceptions the program can meet; \<open>OtherError\<close> is any other exception class, by
  name. All of them derive from \<^verbatim>\<open>Exception\<close>.
\<close>

datatype error =
    RequestException
  | ValueError
  | HTTPError int
  | OverflowError
  | TypeError
  | AttributeError
  | FileNotFoundError
  | OSError
  | OtherError string

text \<open>\<^verbatim>\<open>issue.get("key")\<close> is \<^verbatim>\<open>None\<close> when the key is missing or \<^verbatim>\<open>null\<close>.\<close>

type_synonym key = "string option"

text \<open>
  What a dictionary holds at a name whose value is a JSON object or array: nothing, the
  JSON \<^verbatim>\<open>null\<close> (Python's \<^verbatim>\<open>None\<close>, on which \<^verbatim>\<open>.get\<close> raises \<^verbatim>\<open>AttributeError\<close> and
  iteration raises \<^verbatim>\<open>TypeError\<close>), or the value as the code reads it.
\<close>

datatype 'a jobj = Missing | Null | Object 'a

text \<open>
  One entry of the \<^verbatim>\<open>comments\<close> array of the comment endpoint: \<^verbatim>\<open>id\<close>, the
  \<^verbatim>\<open>displayName\<close> of the object \<^verbatim>\<open>author\<close>, \<^verbatim>\<open>created\<close> and \<^verbatim>\<open>body\<close>; and the
  dictionary \<^verbatim>\<open>fetch_comments\<close> builds from it.
\<close>

record raw_comment =
  rc_id :: "string option"
  rc_author :: "string option jobj"
  rc_created :: "string option"
  rc_body :: "string option"

record comment =
  c_id :: "string option"
  c_author :: "string option"
  c_created :: "string option"
  c_body :: string

text \<open>
  One entry of the \<^verbatim>\<open>issues\<close> array of the search endpoint. The object \<^verbatim>\<open>fields\<close> holds
  the summary, the objects \<^verbatim>\<open>project\<close> (read for its \<^verbatim>\<open>key\<close>), \<^verbatim>\<open>reporter\<close> and
  \<^verbatim>\<open>assignee\<close> (read for their \<^verbatim>\<open>displayName\<close>), \<^verbatim>\<open>status\<close> and \<^verbatim>\<open>priority\<close> (read for
  their \<^verbatim>\<open>name\<close>), the labels, the two dates and the description.
\<close>

record issue_fields =
  f_summary :: "string option"
  f_project :: "string option jobj"
  f_reporter :: "string option jobj"
  f_assignee :: "string option jobj"
  f_status :: "string option jobj"
  f_priority :: "string option jobj"
  f_labels :: "string list option"
  f_created :: "string option"
  f_updated :: "string option"
  f_description :: "string option"

record issue =
  i_id :: "string option"
  i_key :: key
  i_fields :: "issue_fields jobj"

text \<open>The dictionary \<^verbatim>\<open>issue_to_record\<close> returns; one line of the output file.\<close>

record jrecord =
  r_id :: "string option"
  r_key :: key
  r_title :: "string option"
  r_project :: "string option"
  r_reporter :: "string option"
  r_assignee :: "string option"
  r_status :: "string option"
  r_priority :: "string option"
  r_labels :: "string list"
  r_created :: "string option"
  r_updated :: "string option"
  r_description :: string
  r_comments :: "comment list"
  r_content :: string
  r_summary_prompt :: string
  r_qa_prompt :: string

text \<open>
  A parsed JSON body: a JSON object with its \<^verbatim>\<open>total\<close>, \<^verbatim>\<open>issues\<close> and \<^verbatim>\<open>comments\<close>,
  or a JSON value that is not an object (on which \<^verbatim>\<open>data.get\<close> raises
  \<^verbatim>\<open>AttributeError\<close>).
\<close>

datatype body =
    NotObject
  | JObject "int option" "issue list jobj" "raw_comment list jobj"

text \<open>
  A request is its URL and parameters: the search with \<^verbatim>\<open>jql\<close>, \<^verbatim>\<open>startAt\<close> and
  \<^verbatim>\<open>maxResults\<close>, or the comment endpoint of an issue key as it is printed into the URL.
  \<^verbatim>\<open>session.get\<close> raises \<^verbatim>\<open>requests.RequestException\<close> (\<open>ConnError\<close>) or returns a
  response: its status code, its body (\<open>None\<close> when \<^verbatim>\<open>r.json()\<close> raises
  \<^verbatim>\<open>ValueError\<close>) and its \<^verbatim>\<open>Retry-After\<close> header.
\<close>

datatype request = Search string int int | CommentsOf string

datatype response = ConnError | Resp int "body option" "string option"

text \<open>The JSON object of a checkpoint file; the order of \<^verbatim>\<open>processed\<close> is irrelevant.\<close>

record checkpoint =
  ck_startAt :: int
  ck_processed :: "key set"

datatype event =
    HttpGet request
  | Sleep real
  | Warn key error
  | AppendLine string jrecord
  | SaveCheckpoint string checkpoint
  | Replace string string

text \<open>
  The calls into the standard library that can fail for reasons outside the program:
  \<^verbatim>\<open>time.sleep(d)\<close>, \<^verbatim>\<open>open(path, "a")\<close>, the write and flush of one line,
  the three steps of \<^verbatim>\<open>save_checkpoint\<close> (open, dump, rename) taken together,
  \<^verbatim>\<open>json.load(open(path))\<close> and \<^verbatim>\<open>os.replace(src, dst)\<close>.
\<close>

datatype call =
    SleepFor real
  | OpenAppend string
  | WriteLine string jrecord
  | SaveFile string checkpoint
  | LoadFile string
  | Rename string string

text \<open>
  The environment:
  \<^item> \<open>server\<close>: the answer to a request, as a function of the number of HTTP attempts
    made before it;
  \<^item> \<open>rand\<close>: the successive values of \<^verbatim>\<open>random.random()\<close>;
  \<^item> \<open>fl\<close>: the rounding of the result of a floating-point operation to a float;
  \<^item> \<open>soup_text\<close>: \<^verbatim>\<open>BeautifulSoup(html, "html.parser").get_text(separator="\n")\<close>, or the
    exception it raises;
  \<^item> \<open>dateparse\<close>: \<^verbatim>\<open>dateparser.parse(s).isoformat()\<close>, \<open>None\<close> when it raises;
  \<^item> \<open>int_max_str_digits\<close>: \<^verbatim>\<open>sys.get_int_max_str_digits()\<close>, 0 when there is no limit;
  \<^item> \<open>raises\<close>: the exception a library call raises, if any, as a function of the call
    and of the number of effects before it. What \<^verbatim>\<open>time.sleep\<close> refuses depends on the
    platform and on its clock, what the file system refuses on the directories and
    permissions of the machine.
\<close>

record env =
  server :: "request \<Rightarrow> nat \<Rightarrow> response"
  rand :: "nat \<Rightarrow> real"
  fl :: "real \<Rightarrow> real"
  soup_text :: "string \<Rightarrow> error + string"
  dateparse :: "string \<Rightarrow> string option"
  int_max_str_digits :: nat
  raises :: "call \<Rightarrow> nat \<Rightarrow> error option"

text \<open>
  The state: HTTP attempts made, random numbers drawn, the checkpoint files and the
  output files by path (the two are kept apart: a checkpoint file is never an output
  path), and the effects so far, oldest first. Progress-bar updates and the final
  \<^verbatim>\<open>print\<close> only write to the terminal and are left out.
\<close>

record world =
  clock :: nat
  draws :: nat
  ckpts :: "string \<rightharpoonup> checkpoint"
  outs :: "string \<rightharpoonup> jrecord list"
  trace :: "event list"

definition emit :: "event \<Rightarrow> world \<Rightarrow> world" where
  "emit e w = w\<lparr>trace := trace w @ [e]\<rparr>"

definition lib_error :: "env \<Rightarrow> call \<Rightarrow> world \<Rightarrow> error option" where
  "lib_error env c w = raises env c (length (trace w))"

subsection \<open>Utilities\<close>

text \<open>
  \<^verbatim>\<open>str.strip()\<close> removes the characters \<^verbatim>\<open>str.isspace\<close> accepts: below 256 these are
  9 to 13, 28 to 32, 0x85 and 0xA0.
\<close>

definition is_space :: "char \<Rightarrow> bool" where
  "is_space c = ((of_char c :: nat) \<in> {9, 10, 11, 12, 13, 28, 29, 30, 31, 32, 133, 160})"

definition py_strip :: "string \<Rightarrow> string" where
  "py_strip s = rev (dropWhile is_space (rev (dropWhile is_space s)))"

text \<open>
  \<^verbatim>\<open>int(s)\<close> for a string: blanks around the number are dropped (the characters 9 to 13
  and 32, and 0x85 and 0xA0, which are first turned into spaces; 28 to 31 are not
  blanks here), then comes an optional sign and digits, single underscores allowed
  between digits. A number with more digits than the limit is refused when it has more
  than 640 digits. \<open>None\<close> is \<^verbatim>\<open>ValueError\<close>.
\<close>

definition is_blank :: "char \<Rightarrow> bool" where
  "is_blank c = ((of_char c :: nat) \<in> {9, 10, 11, 12, 13, 32, 133, 160})"

definition int_strip :: "string \<Rightarrow> string" where
  "int_strip s = rev (dropWhile is_blank (rev (dropWhile is_blank s)))"

definition is_digit :: "char \<Rightarrow> bool" where
  "is_digit c = (48 \<le> (of_char c :: nat) \<and> (of_char c :: nat) \<le> 57)"

fun parse_digits :: "string \<Rightarrow> nat \<Rightarrow> nat option" where
  "parse_digits [] acc = Some acc"
| "parse_digits (c # cs) acc =
     (if is_digit c then parse_digits cs (acc * 10 + (of_char c - 48))
      else if c = CHR ''_'' \<and> cs \<noteq> [] \<and> is_digit (hd cs) then parse_digits cs acc
      else None)"

definition too_many_digits :: "env \<Rightarrow> string \<Rightarrow> bool" where
  "too_many_digits env ds =
     (0 < int_max_str_digits env
      \<and> int_max_str_digits env < length (filter is_digit ds)
      \<and> 640 < length (filter is_digit ds))"

definition py_int :: "env \<Rightarrow> string \<Rightarrow> int option" where
  "py_int env s =
     (let t = int_strip s;
          neg = (t \<noteq> [] \<and> hd t = CHR ''-'');
          ds = (if t \<noteq> [] \<and> (hd t = CHR ''-'' \<or> hd t = CHR ''+'') then tl t else t)
      in if ds \<noteq> [] \<and> is_digit (hd ds) \<and> \<not> too_many_digits env ds
         then map_option (\<lambda>n. if neg then - int n else int n) (parse_digits ds 0)
         else None)"

definition html_to_text :: "env \<Rightarrow> string option \<Rightarrow> error + string" where
  "html_to_text env html =
     (case html of
        None \<Rightarrow> Inr []
      | Some h \<Rightarrow>
          if h = [] then Inr []
          else (case soup_text env h of Inl e \<Rightarrow> Inl e | Inr t \<Rightarrow> Inr (py_strip t)))"

definition safe_parse_date :: "env \<Rightarrow> string option \<Rightarrow> string option" where
  "safe_parse_date env s =
     (case s of
        None \<Rightarrow> None
      | Some d \<Rightarrow> (case dateparse env d of Some t \<Rightarrow> Some t | None \<Rightarrow> Some d))"

text \<open>\<^verbatim>\<open>time.sleep(d)\<close>: it raises, or the sleep is recorded.\<close>

definition time_sleep :: "env \<Rightarrow> real \<Rightarrow> world \<Rightarrow> (error + unit) \<times> world" where
  "time_sleep env d w =
     (case lib_error env (SleepFor d) w of
        Some e \<Rightarrow> (Inl e, w)
      | None \<Rightarrow> (Inr (), emit (Sleep d) w))"

text \<open>
  \<^verbatim>\<open>min(cap, base * (2 ** attempt))\<close>: the power is an integer, and its conversion to a
  float for the product raises \<^verbatim>\<open>OverflowError\<close> from \<open>2 ^ 1024\<close> on; below that the
  conversion is exact and the product is rounded. The factor of the jitter is
  \<^verbatim>\<open>0.5 + random.random() * 0.5\<close>.
\<close>

definition backoff_delay :: "env \<Rightarrow> nat \<Rightarrow> real \<Rightarrow> real \<Rightarrow> error + real" where
  "backoff_delay env attempt base cap =
     (if attempt < 1024 then Inr (min cap (fl env (base * 2 ^ attempt))) else Inl OverflowError)"

definition jitter :: "env \<Rightarrow> real \<Rightarrow> real" where
  "jitter env r = fl env (0.5 + fl env (r * 0.5))"

definition backoff_sleep :: "env \<Rightarrow> nat \<Rightarrow> real \<Rightarrow> real \<Rightarrow> world \<Rightarrow> (error + unit) \<times> world" where
  "backoff_sleep env attempt base cap w =
     (case backoff_delay env attempt base cap of
        Inl e \<Rightarrow> (Inl e, w)
      | Inr d \<Rightarrow>
          time_sleep env (fl env (d * jitter env (rand env (draws w)))) (w\<lparr>draws := draws w + 1\<rparr>))"

subsection \<open>Checkpointing\<close>

definition checkpoint_file :: "string \<Rightarrow> string" where
  "checkpoint_file project = ''checkpoint-'' @ project @ ''.json''"

text \<open>The file is read when it exists; reading it can fail.\<close>

definition load_checkpoint :: "env \<Rightarrow> string \<Rightarrow> world \<Rightarrow> error + checkpoint" where
  "load_checkpoint env project w =
     (case ckpts w (checkpoint_file project) of
        None \<Rightarrow> Inr \<lparr>ck_startAt = 0, ck_processed = {}\<rparr>
      | Some c \<Rightarrow>
          (case lib_error env (LoadFile (checkpoint_file project)) w of
             Some e \<Rightarrow> Inl e
           | None \<Rightarrow> Inr c))"

text \<open>
  The temporary file is written and then renamed over the checkpoint file: when one of
  the steps raises the checkpoint file is as it was, otherwise it holds the new
  checkpoint.
\<close>

definition save_checkpoint :: "env \<Rightarrow> string \<Rightarrow> checkpoint \<Rightarrow> world \<Rightarrow> (error + unit) \<times> world" where
  "save_checkpoint env project c w =
     (case lib_error env (SaveFile (checkpoint_file project) c) w of
        Some e \<Rightarrow> (Inl e, w)
      | None \<Rightarrow>
          (Inr (), emit (SaveCheckpoint (checkpoint_file project) c)
                     (w\<lparr>ckpts := (ckpts w)(checkpoint_file project \<mapsto> c)\<rparr>)))"

subsection \<open>The retrying transport\<close>

text \<open>The state after one more HTTP attempt, and \<^verbatim>\<open>session.get\<close>.\<close>

definition sent :: "request \<Rightarrow> world \<Rightarrow> world" where
  "sent req w = emit (HttpGet req) (w\<lparr>clock := clock w + 1\<rparr>)"

definition session_get :: "env \<Rightarrow> request \<Rightarrow> world \<Rightarrow> response \<times> world" where
  "session_get env req w = (server env req (clock w), sent req w)"

text \<open>
  \<^verbatim>\<open>r.raise_for_status()\<close> raises \<^verbatim>\<open>HTTPError\<close> for a status from 400 to 599 and
  returns otherwise.
\<close>

definition raises_for_status :: "int \<Rightarrow> bool" where
  "raises_for_status status = (400 \<le> status \<and> status < 600)"

text \<open>
  The wait of the 429 branch: with a header that is there and not empty,
  \<^verbatim>\<open>time.sleep(wait + 1)\<close> where \<^verbatim>\<open>wait\<close> is \<^verbatim>\<open>int(ra)\<close>, or 60 when that raises; else
  the backoff.
\<close>

definition rate_limit_wait :: "env \<Rightarrow> nat \<Rightarrow> string option \<Rightarrow> world \<Rightarrow> (error + unit) \<times> world" where
  "rate_limit_wait env attempt ra w =
     (if ra \<noteq> None \<and> the ra \<noteq> []
      then time_sleep env (of_int ((case py_int env (the ra) of Some n \<Rightarrow> n | None \<Rightarrow> 60) + 1)) w
      else backoff_sleep env attempt 1 60 w)"

text \<open>The loop of \<^verbatim>\<open>jira_get\<close>, from the value of \<^verbatim>\<open>attempt\<close> at the top of an iteration.\<close>

partial_function (option) jira_loop ::
  "env \<Rightarrow> request \<Rightarrow> nat \<Rightarrow> nat \<Rightarrow> world \<Rightarrow> ((error + body) \<times> world) option" where
  "jira_loop env req max_attempts attempt w =
     (case session_get env req w of
        (ConnError, w1) \<Rightarrow>
          if attempt \<ge> max_attempts then Some (Inl RequestException, w1)
          else (case backoff_sleep env attempt 1 60 w1 of
                  (Inl e, w2) \<Rightarrow> Some (Inl e, w2)
                | (Inr u, w2) \<Rightarrow> jira_loop env req max_attempts (attempt + 1) w2)
      | (Resp status parsed ra, w1) \<Rightarrow>
          if status = 200 then
            (case parsed of
               Some b \<Rightarrow> Some (Inr b, w1)
             | None \<Rightarrow>
                 if attempt \<ge> max_attempts then Some (Inl ValueError, w1)
                 else (case backoff_sleep env attempt 1 60 w1 of
                         (Inl e, w2) \<Rightarrow> Some (Inl e, w2)
                       | (Inr u, w2) \<Rightarrow> jira_loop env req max_attempts (attempt + 1) w2))
          else if status = 429 then
            (case rate_limit_wait env attempt ra w1 of
               (Inl e, w2) \<Rightarrow> Some (Inl e, w2)
             | (Inr u, w2) \<Rightarrow>
                 if attempt + 1 > max_attempts then Some (Inl (HTTPError status), w2)
                 else jira_loop env req max_attempts (attempt + 1) w2)
          else if 500 \<le> status \<and> status < 600 then
            (if attempt \<ge> max_attempts then Some (Inl (HTTPError status), w1)
             else (case backoff_sleep env attempt 1 60 w1 of
                     (Inl e, w2) \<Rightarrow> Some (Inl e, w2)
                   | (Inr u, w2) \<Rightarrow> jira_loop env req max_attempts (attempt + 1) w2))
          else if raises_for_status status then Some (Inl (HTTPError status), w1)
          else jira_loop env req max_attempts attempt w1)"

definition jira_get :: "env \<Rightarrow> request \<Rightarrow> nat \<Rightarrow> world \<Rightarrow> ((error + body) \<times> world) option" where
  "jira_get env req max_attempts w = jira_loop env req max_attempts 0 w"

subsection \<open>Comments and records\<close>

definition key_text :: "key \<Rightarrow> string" where
  "key_text k = (case k of None \<Rightarrow> ''None'' | Some s \<Rightarrow> s)"

text \<open>
  The dictionary of one comment, its entries evaluated in order:
  \<^verbatim>\<open>c.get("author", {}).get("displayName")\<close> raises \<^verbatim>\<open>AttributeError\<close> when the author is
  \<^verbatim>\<open>null\<close>.
\<close>

definition comment_of :: "env \<Rightarrow> raw_comment \<Rightarrow> error + comment" where
  "comment_of env c =
     (case rc_author c of
        Null \<Rightarrow> Inl AttributeError
      | _ \<Rightarrow>
          (case html_to_text env (rc_body c) of
             Inl e \<Rightarrow> Inl e
           | Inr text_body \<Rightarrow>
               Inr \<lparr>c_id = rc_id c,
                    c_author = (case rc_author c of Object d \<Rightarrow> d | _ \<Rightarrow> None),
                    c_created = safe_parse_date env (rc_created c),
                    c_body = text_body\<rparr>))"

fun comments_of :: "env \<Rightarrow> raw_comment list \<Rightarrow> error + comment list" where
  "comments_of env [] = Inr []"
| "comments_of env (c # cs) =
     (case comment_of env c of
        Inl e \<Rightarrow> Inl e
      | Inr x \<Rightarrow> (case comments_of env cs of Inl e \<Rightarrow> Inl e | Inr xs \<Rightarrow> Inr (x # xs)))"

text \<open>
  The loop over \<^verbatim>\<open>data.get("comments", [])\<close>: no comment when the name is missing,
  \<^verbatim>\<open>TypeError\<close> when its value is \<^verbatim>\<open>null\<close>.
\<close>

definition parse_comments :: "env \<Rightarrow> body \<Rightarrow> error + comment list" where
  "parse_comments env data =
     (case data of
        NotObject \<Rightarrow> Inl AttributeError
      | JObject tot iss cms \<Rightarrow>
          (case cms of
             Missing \<Rightarrow> Inr []
           | Null \<Rightarrow> Inl TypeError
           | Object cs \<Rightarrow> comments_of env cs))"

definition fetch_comments :: "env \<Rightarrow> key \<Rightarrow> world \<Rightarrow> ((error + comment list) \<times> world) option" where
  "fetch_comments env issue_key w =
     (case jira_get env (CommentsOf (key_text issue_key)) 6 w of
        None \<Rightarrow> None
      | Some (Inl e, w1) \<Rightarrow> Some (Inl e, w1)
      | Some (Inr data, w1) \<Rightarrow> Some (parse_comments env data, w1))"

fun py_join :: "string \<Rightarrow> string list \<Rightarrow> string" where
  "py_join sep [] = []"
| "py_join sep [x] = x"
| "py_join sep (x # y # ys) = x @ sep @ py_join sep (y # ys)"

definition nl2 :: string where
  "nl2 = [CHR 0x0A, CHR 0x0A]"

text \<open>\<^verbatim>\<open>issue.get("fields", {})\<close> when the name is missing: the empty dictionary.\<close>

definition no_fields :: issue_fields where
  "no_fields =
     \<lparr>f_summary = None, f_project = Missing, f_reporter = Missing, f_assignee = Missing,
      f_status = Missing, f_priority = Missing, f_labels = None, f_created = None,
      f_updated = None, f_description = None\<rparr>"

text \<open>\<^verbatim>\<open>fields.get(n, {}).get(m) if fields.get(n) else None\<close>.\<close>

definition named :: "string option jobj \<Rightarrow> string option" where
  "named x = (case x of Object d \<Rightarrow> d | _ \<Rightarrow> None)"

text \<open>
  The record is built entry by entry: \<^verbatim>\<open>fields.get("summary")\<close> raises
  \<^verbatim>\<open>AttributeError\<close> when \<^verbatim>\<open>fields\<close> is \<^verbatim>\<open>null\<close>, \<^verbatim>\<open>fields.get("project", {}).get("key")\<close>
  when the project is \<^verbatim>\<open>null\<close>; then the description is converted; at last the
  concatenation that makes \<^verbatim>\<open>content\<close> raises \<^verbatim>\<open>TypeError\<close> when the title is \<^verbatim>\<open>None\<close>.
\<close>

definition issue_to_record :: "env \<Rightarrow> issue \<Rightarrow> comment list \<Rightarrow> error + jrecord" where
  "issue_to_record env issue comments =
     (case i_fields issue of
        Null \<Rightarrow> Inl AttributeError
      | _ \<Rightarrow>
          (let f = (case i_fields issue of Object x \<Rightarrow> x | _ \<Rightarrow> no_fields)
           in if f_project f = Null then Inl AttributeError
              else
                (case html_to_text env
                        (Some (case f_description f of None \<Rightarrow> [] | Some d \<Rightarrow> d)) of
                   Inl e \<Rightarrow> Inl e
                 | Inr description \<Rightarrow>
                     (case f_summary f of
                        None \<Rightarrow> Inl TypeError
                      | Some title \<Rightarrow>
                          (let content =
                                 py_strip (title @ nl2 @ description @ nl2
                                             @ py_join nl2 (map c_body comments))
                           in Inr \<lparr>r_id = i_id issue, r_key = i_key issue,
                                   r_title = Some title,
                                   r_project = named (f_project f),
                                   r_reporter = named (f_reporter f),
                                   r_assignee = named (f_assignee f),
                                   r_status = named (f_status f),
                                   r_priority = named (f_priority f),
                                   r_labels = (case f_labels f of None \<Rightarrow> [] | Some ls \<Rightarrow> ls),
                                   r_created = safe_parse_date env (f_created f),
                                   r_updated = safe_parse_date env (f_updated f),
                                   r_description = description, r_comments = comments,
                                   r_content = content,
                                   r_summary_prompt =
                                     ''Summarize the following Jira issue:'' @ nl2 @ content,
                                   r_qa_prompt =
                                     ''Write 3 question-answer pairs that help understand this issue:''
                                       @ nl2 @ content\<rparr>)))))"

subsection \<open>The output file\<close>

definition lines_of :: "world \<Rightarrow> string \<Rightarrow> jrecord list" where
  "lines_of w path = (case outs w path of None \<Rightarrow> [] | Some ls \<Rightarrow> ls)"

text \<open>\<^verbatim>\<open>open(out_tmp, "a")\<close> creates the file when it is not there and keeps it otherwise.\<close>

definition open_append :: "env \<Rightarrow> string \<Rightarrow> world \<Rightarrow> (error + unit) \<times> world" where
  "open_append env path w =
     (case lib_error env (OpenAppend path) w of
        Some e \<Rightarrow> (Inl e, w)
      | None \<Rightarrow> (Inr (), w\<lparr>outs := (outs w)(path \<mapsto> lines_of w path)\<rparr>))"

text \<open>\<^verbatim>\<open>out_f.write(json.dumps(record) + "\n")\<close> and \<^verbatim>\<open>out_f.flush()\<close>.\<close>

definition append_line :: "env \<Rightarrow> string \<Rightarrow> jrecord \<Rightarrow> world \<Rightarrow> (error + unit) \<times> world" where
  "append_line env path r w =
     (case lib_error env (WriteLine path r) w of
        Some e \<Rightarrow> (Inl e, w)
      | None \<Rightarrow>
          (Inr (), emit (AppendLine path r) (w\<lparr>outs := (outs w)(path \<mapsto> lines_of w path @ [r])\<rparr>)))"

definition os_replace :: "env \<Rightarrow> string \<Rightarrow> string \<Rightarrow> world \<Rightarrow> (error + unit) \<times> world" where
  "os_replace env src dst w =
     (case lib_error env (Rename src dst) w of
        Some e \<Rightarrow> (Inl e, w)
      | None \<Rightarrow>
          (case outs w src of
             None \<Rightarrow> (Inl FileNotFoundError, w)
           | Some ls \<Rightarrow>
               (Inr (), emit (Replace src dst) (w\<lparr>outs := ((outs w)(src := None))(dst \<mapsto> ls)\<rparr>))))"

subsection \<open>The scan\<close>

text \<open>
  The state after the \<^verbatim>\<open>try\<close> around \<^verbatim>\<open>fetch_comments\<close>, and the comments it leaves: an
  exception is printed as a warning and the comments stay empty.
\<close>

definition warned :: "key \<Rightarrow> error + comment list \<Rightarrow> world \<Rightarrow> world" where
  "warned k fetched w = (case fetched of Inl x \<Rightarrow> emit (Warn k x) w | Inr cs \<Rightarrow> w)"

definition comments_or_none :: "error + comment list \<Rightarrow> comment list" where
  "comments_or_none fetched = (case fetched of Inl x \<Rightarrow> [] | Inr cs \<Rightarrow> cs)"

text \<open>The body of the \<^verbatim>\<open>for\<close> loop, for one issue of the page.\<close>

definition process_item ::
  "env \<Rightarrow> string \<Rightarrow> issue \<Rightarrow> key set \<Rightarrow> world \<Rightarrow> ((error + key set) \<times> world) option" where
  "process_item env out_tmp issue processed w =
     (if i_key issue \<in> processed then Some (Inr processed, w)
      else
        (case fetch_comments env (i_key issue) w of
           None \<Rightarrow> None
         | Some (fetched, w1) \<Rightarrow>
             (case issue_to_record env issue (comments_or_none fetched) of
                Inl e \<Rightarrow> Some (Inl e, warned (i_key issue) fetched w1)
              | Inr r \<Rightarrow>
                  (case append_line env out_tmp r (warned (i_key issue) fetched w1) of
                     (Inl e, w2) \<Rightarrow> Some (Inl e, w2)
                   | (Inr u, w2) \<Rightarrow> Some (Inr (insert (i_key issue) processed), w2)))))"

fun process_items ::
  "env \<Rightarrow> string \<Rightarrow> issue list \<Rightarrow> key set \<Rightarrow> world \<Rightarrow> ((error + key set) \<times> world) option" where
  "process_items env out_tmp [] processed w = Some (Inr processed, w)"
| "process_items env out_tmp (issue # rest) processed w =
     (case process_item env out_tmp issue processed w of
        None \<Rightarrow> None
      | Some (Inl e, w1) \<Rightarrow> Some (Inl e, w1)
      | Some (Inr processed1, w1) \<Rightarrow> process_items env out_tmp rest processed1 w1)"

definition DEFAULT_MAX_RESULTS :: int where
  "DEFAULT_MAX_RESULTS = 100"

text \<open>
  \<^verbatim>\<open>data.get("issues", [])\<close>, or the \<^verbatim>\<open>AttributeError\<close> of \<^verbatim>\<open>data.get\<close>: a missing name and
  \<^verbatim>\<open>null\<close> both fail the test \<^verbatim>\<open>if not issues\<close>, as the empty list does.
\<close>

definition page_issues :: "body \<Rightarrow> error + issue list" where
  "page_issues data =
     (case data of
        NotObject \<Rightarrow> Inl AttributeError
      | JObject tot iss cms \<Rightarrow> Inr (case iss of Object xs \<Rightarrow> xs | _ \<Rightarrow> []))"

text \<open>\<^verbatim>\<open>if total is None: total = data.get("total", None)\<close>.\<close>

definition seen_total :: "int option \<Rightarrow> body \<Rightarrow> int option" where
  "seen_total total_seen data =
     (case total_seen of
        None \<Rightarrow> (case data of NotObject \<Rightarrow> None | JObject tot iss cms \<Rightarrow> tot)
      | Some t \<Rightarrow> Some t)"

definition stop_condition :: "int option \<Rightarrow> int \<Rightarrow> bool" where
  "stop_condition total_seen startAt = (case total_seen of None \<Rightarrow> False | Some t \<Rightarrow> startAt \<ge> t)"

text \<open>
  The \<^verbatim>\<open>while True\<close> loop of \<^verbatim>\<open>scrape_project\<close>, from the values of \<^verbatim>\<open>startAt\<close>,
  \<^verbatim>\<open>processed\<close> and \<^verbatim>\<open>total\<close> at the top of an iteration.
\<close>

partial_function (option) scan ::
  "env \<Rightarrow> string \<Rightarrow> string \<Rightarrow> string \<Rightarrow> int \<Rightarrow> key set \<Rightarrow> int option \<Rightarrow> world
     \<Rightarrow> ((error + int \<times> key set) \<times> world) option" where
  "scan env project jql out_tmp startAt processed total_seen w =
     (case jira_get env (Search jql startAt DEFAULT_MAX_RESULTS) 6 w of
        None \<Rightarrow> None
      | Some (Inl e, w1) \<Rightarrow> Some (Inl e, w1)
      | Some (Inr data, w1) \<Rightarrow>
          (case page_issues data of
             Inl e \<Rightarrow> Some (Inl e, w1)
           | Inr issues \<Rightarrow>
               if issues = [] then Some (Inr (startAt, processed), w1)
               else
                 (case process_items env out_tmp issues processed w1 of
                    None \<Rightarrow> None
                  | Some (Inl e, w2) \<Rightarrow> Some (Inl e, w2)
                  | Some (Inr processed1, w2) \<Rightarrow>
                      (case save_checkpoint env project
                              \<lparr>ck_startAt = startAt + int (length issues),
                               ck_processed = processed1\<rparr> w2 of
                         (Inl e, w3) \<Rightarrow> Some (Inl e, w3)
                       | (Inr u, w3) \<Rightarrow>
                           if stop_condition (seen_total total_seen data)
                                (startAt + int (length issues))
                           then Some (Inr (startAt + int (length issues), processed1), w3)
                           else
                             (case time_sleep env 0.5 w3 of
                                (Inl e, w4) \<Rightarrow> Some (Inl e, w4)
                              | (Inr u, w4) \<Rightarrow>
                                  scan env project jql out_tmp (startAt + int (length issues))
                                    processed1 (seen_total total_seen data) w4)))))"

text \<open>The renames after the loop.\<close>

definition finalize :: "env \<Rightarrow> string \<Rightarrow> world \<Rightarrow> (error + unit) \<times> world" where
  "finalize env out_path w =
     (if outs w out_path \<noteq> None
      then (case os_replace env out_path (out_path @ ''.bak'') w of
              (Inl e, w1) \<Rightarrow> (Inl e, w1)
            | (Inr u, w1) \<Rightarrow> os_replace env (out_path @ ''.tmp'') out_path w1)
      else os_replace env (out_path @ ''.tmp'') out_path w)"

definition default_jql :: "string \<Rightarrow> string option \<Rightarrow> string" where
  "default_jql project jql =
     (if jql = None \<or> jql = Some [] then ''project = '' @ project @ '' ORDER BY created ASC''
      else the jql)"

definition scrape_project ::
  "env \<Rightarrow> string \<Rightarrow> string \<Rightarrow> string option \<Rightarrow> world \<Rightarrow> ((error + unit) \<times> world) option" where
  "scrape_project env project out_path jql w =
     (case load_checkpoint env project w of
        Inl e \<Rightarrow> Some (Inl e, w)
      | Inr ck \<Rightarrow>
          (case open_append env (out_path @ ''.tmp'') w of
             (Inl e, w0) \<Rightarrow> Some (Inl e, w0)
           | (Inr u, w0) \<Rightarrow>
               (case scan env project (default_jql project jql) (out_path @ ''.tmp'')
                       (ck_startAt ck) (ck_processed ck) None w0 of
                  None \<Rightarrow> None
                | Some (Inl e, w1) \<Rightarrow> Some (Inl e, w1)
                | Some (Inr fin, w1) \<Rightarrow> Some (finalize env out_path w1))))"

subsection \<open>Reading the effects of a run\<close>

text \<open>
  \<open>extends w w'\<close>: the state \<open>w'\<close> was reached from \<open>w\<close>, its effects being those of
  \<open>w\<close> followed by \<open>since w w'\<close>.
\<close>

definition since :: "world \<Rightarrow> world \<Rightarrow> event list" where
  "since w w' = drop (length (trace w)) (trace w')"

definition extends :: "world \<Rightarrow> world \<Rightarrow> bool" where
  "extends w w' = (take (length (trace w)) (trace w') = trace w)"

fun is_net :: "event \<Rightarrow> bool" where
  "is_net (HttpGet req) = True"
| "is_net (Sleep d) = True"
| "is_net e = False"

text \<open>The effects of handling one issue: requests, sleeps, a warning, a line of the working file.\<close>

fun is_item_event :: "string \<Rightarrow> event \<Rightarrow> bool" where
  "is_item_event out_tmp (HttpGet req) = True"
| "is_item_event out_tmp (Sleep d) = True"
| "is_item_event out_tmp (Warn k e) = True"
| "is_item_event out_tmp (AppendLine path r) = (path = out_tmp)"
| "is_item_event out_tmp e = False"

text \<open>The effects of the scan: those of the issues, and checkpoints of the project.\<close>

fun is_scan_event :: "string \<Rightarrow> string \<Rightarrow> event \<Rightarrow> bool" where
  "is_scan_event project out_tmp (SaveCheckpoint f c) = (f = checkpoint_file project)"
| "is_scan_event project out_tmp (Replace src dst) = False"
| "is_scan_event project out_tmp e = is_item_event out_tmp e"

text \<open>The records appended, in order.\<close>

fun appended :: "event list \<Rightarrow> jrecord list" where
  "appended [] = []"
| "appended (AppendLine path r # es) = r # appended es"
| "appended (e # es) = appended es"

text \<open>
  \<open>saves_mono s p es\<close>: the checkpoints saved in \<open>es\<close>, in order, never lower the offset
  \<open>s\<close> and never lose a key of \<open>p\<close>.
\<close>

fun saves_mono :: "int \<Rightarrow> key set \<Rightarrow> event list \<Rightarrow> bool" where
  "saves_mono s p [] = True"
| "saves_mono s p (SaveCheckpoint f c # es) =
     (s \<le> ck_startAt c \<and> p \<subseteq> ck_processed c \<and> saves_mono (ck_startAt c) (ck_processed c) es)"
| "saves_mono s p (e # es) = saves_mono s p es"

text \<open>
  \<open>covered written es\<close>: every checkpoint saved in \<open>es\<close> holds only keys that are in
  \<open>written\<close> or whose record was appended earlier in \<open>es\<close>.
\<close>

fun covered :: "key set \<Rightarrow> event list \<Rightarrow> bool" where
  "covered written [] = True"
| "covered written (AppendLine path r # es) = covered (insert (r_key r) written) es"
| "covered written (SaveCheckpoint f c # es) = (ck_processed c \<subseteq> written \<and> covered written es)"
| "covered written (e # es) = covered written es"

text \<open>
  \<open>net_only w w'\<close>: from \<open>w\<close> to \<open>w'\<close> only requests and sleeps happened.
  \<open>item_only out_tmp w w'\<close>: only effects of handling issues happened, and the lines
  appended are the new lines of the working file.
\<close>

definition net_only :: "world \<Rightarrow> world \<Rightarrow> bool" where
  "net_only w w' =
     (ckpts w' = ckpts w \<and> outs w' = outs w \<and> extends w w' \<and> list_all is_net (since w w'))"

definition item_only :: "string \<Rightarrow> world \<Rightarrow> world \<Rightarrow> bool" where
  "item_only out_tmp w w' =
     (ckpts w' = ckpts w \<and> (\<forall>p. p \<noteq> out_tmp \<longrightarrow> outs w' p = outs w p)
      \<and> (outs w out_tmp \<noteq> None \<longrightarrow> outs w' out_tmp \<noteq> None)
      \<and> extends w w' \<and> list_all (is_item_event out_tmp) (since w w')
      \<and> lines_of w' out_tmp = lines_of w out_tmp @ appended (since w w'))"

text \<open>
  \<open>scan_only project out_tmp w w'\<close>: only effects of the scan happened: those of handling
  issues, and checkpoints of the project.
\<close>

definition scan_only :: "string \<Rightarrow> string \<Rightarrow> world \<Rightarrow> world \<Rightarrow> bool" where
  "scan_only project out_tmp w w' =
     ((\<forall>f. f \<noteq> checkpoint_file project \<longrightarrow> ckpts w' f = ckpts w f)
      \<and> (\<forall>p. p \<noteq> out_tmp \<longrightarrow> outs w' p = outs w p)
      \<and> (outs w out_tmp \<noteq> None \<longrightarrow> outs w' out_tmp \<noteq> None)
      \<and> extends w w' \<and> list_all (is_scan_event project out_tmp) (since w w')
      \<and> lines_of w' out_tmp = lines_of w out_tmp @ appended (since w w'))"


text \<open>The requests made, the renames done and the checkpoints saved, in order.\<close>

fun requests :: "event list \<Rightarrow> request list" where
  "requests [] = []"
| "requests (HttpGet req # es) = req # requests es"
| "requests (e # es) = requests es"

fun renames :: "event list \<Rightarrow> (string \<times> string) list" where
  "renames [] = []"
| "renames (Replace src dst # es) = (src, dst) # renames es"
| "renames (e # es) = renames es"

fun saves :: "event list \<Rightarrow> checkpoint list" where
  "saves [] = []"
| "saves (SaveCheckpoint f c # es) = c # saves es"
| "saves (e # es) = saves es"

subsection \<open>Concrete servers\<close>

text \<open>
  Inputs on which the properties below are evaluated. The library calls of \<open>calm\<close>
  never fail, except \<^verbatim>\<open>time.sleep\<close> on a length it always refuses: a negative one, or
  one whose nanoseconds do not fit 64 bits. The environment around a server has random
  draws that are all 0 (the results of the float operations are then exact), text
  libraries that return their input, and the default digit limit of \<^verbatim>\<open>int\<close>.
\<close>

fun calm :: "call \<Rightarrow> nat \<Rightarrow> error option" where
  "calm (SleepFor d) n =
     (if d < - 9223372036 \<or> 9223372036 < d then Some OverflowError
      else if d < 0 then Some ValueError else None)"
| "calm c n = None"

definition env_of :: "(request \<Rightarrow> nat \<Rightarrow> response) \<Rightarrow> env" where
  "env_of srv =
     \<lparr>server = srv, rand = (\<lambda>n. 0), fl = (\<lambda>x. x), soup_text = (\<lambda>s. Inr s),
      dateparse = (\<lambda>s. None), int_max_str_digits = 4300, raises = calm\<rparr>"

definition fresh :: world where
  "fresh = \<lparr>clock = 0, draws = 0, ckpts = Map.empty, outs = Map.empty, trace = []\<rparr>"

definition empty_body :: body where
  "empty_body = JObject None Missing Missing"

definition not_found_server :: "request \<Rightarrow> nat \<Rightarrow> response" where
  "not_found_server req n = Resp 404 None None"

definition no_content_server :: "request \<Rightarrow> nat \<Rightarrow> response" where
  "no_content_server req n = Resp 204 None None"

definition retry_after_server :: "string \<Rightarrow> request \<Rightarrow> nat \<Rightarrow> response" where
  "retry_after_server h req n =
     (if n = 0 then Resp 429 None (Some h) else Resp 200 (Some empty_body) None)"

definition rate_limited_once_server :: "request \<Rightarrow> nat \<Rightarrow> response" where
  "rate_limited_once_server req n =
     (if n = 0 then Resp 429 None None else Resp 200 (Some empty_body) None)"


text \<open>
  The responses \<^verbatim>\<open>jira_get\<close> has a branch for: a connection error, 200, 429 and the
  statuses \<^verbatim>\<open>raise_for_status\<close> raises on.
\<close>

definition handled :: "response \<Rightarrow> bool" where
  "handled r =
     (case r of
        ConnError \<Rightarrow> True
      | Resp status parsed ra \<Rightarrow> status = 200 \<or> status = 429 \<or> raises_for_status status)"

text \<open>
  A server that holds a list of issues and reports a total: the search returns the
  requested slice of the list, the comment endpoint an empty list of comments.
\<close>

definition mk_issue :: "string \<Rightarrow> issue" where
  "mk_issue k =
     \<lparr>i_id = Some k, i_key = Some k,
      i_fields = Object (no_fields\<lparr>f_summary := Some k, f_project := Object (Some ''HADOOP'')\<rparr>)\<rparr>"

definition no_comments :: body where
  "no_comments = JObject None Missing (Object [])"

definition page_of :: "issue list \<Rightarrow> int option \<Rightarrow> int \<Rightarrow> int \<Rightarrow> body" where
  "page_of issues tot s m = JObject tot (Object (take (nat m) (drop (nat s) issues))) Missing"

fun page_server :: "issue list \<Rightarrow> int option \<Rightarrow> request \<Rightarrow> nat \<Rightarrow> response" where
  "page_server issues tot (Search jql s m) n = Resp 200 (Some (page_of issues tot s m)) None"
| "page_server issues tot (CommentsOf k) n = Resp 200 (Some no_comments) None"

text \<open>The same, but the comment endpoint of one key answers 500 to every attempt.\<close>

fun failing_comments_server ::
  "string \<Rightarrow> issue list \<Rightarrow> int option \<Rightarrow> request \<Rightarrow> nat \<Rightarrow> response" where
  "failing_comments_server bad issues tot (Search jql s m) n =
     Resp 200 (Some (page_of issues tot s m)) None"
| "failing_comments_server bad issues tot (CommentsOf k) n =
     (if k = bad then Resp 500 None None else Resp 200 (Some no_comments) None)"

text \<open>The record of \<open>mk_issue k\<close> when it has no comments, and the warnings of a run.\<close>

definition plain_record :: "string \<Rightarrow> jrecord" where
  "plain_record k =
     \<lparr>r_id = Some k, r_key = Some k, r_title = Some k, r_project = Some ''HADOOP'',
      r_reporter = None, r_assignee = None, r_status = None, r_priority = None,
      r_labels = [], r_created = None, r_updated = None, r_description = [],
      r_comments = [], r_content = py_strip (k @ nl2 @ nl2),
      r_summary_prompt = ''Summarize the following Jira issue:'' @ nl2 @ py_strip (k @ nl2 @ nl2),
      r_qa_prompt =
        ''Write 3 question-answer pairs that help understand this issue:'' @ nl2
          @ py_strip (k @ nl2 @ nl2)\<rparr>"

fun warnings :: "event list \<Rightarrow> (key \<times> error) list" where
  "warnings [] = []"
| "warnings (Warn k e # es) = (k, e) # warnings es"
| "warnings (e # es) = warnings es"







section \<open>Properties\<close>

lemma env_of_simps [simp]:
  "server (env_of srv) = srv"
  "rand (env_of srv) = (\<lambda>n. 0)"
  "fl (env_of srv) = (\<lambda>x. x)"
  "soup_text (env_of srv) = (\<lambda>s. Inr s)"
  "dateparse (env_of srv) = (\<lambda>s. None)"
  "int_max_str_digits (env_of srv) = 4300"
  "raises (env_of srv) = calm"
  by (simp_all add: env_of_def)

subsection \<open>The transport\<close>

text \<open>
  C5. A response with a 4xx status other than 429 ends \<^verbatim>\<open>jira_get\<close> at once, whatever the
  attempt count: the result is the HTTP error, and the state differs from the one before
  by one HTTP attempt and nothing else (no sleep, no retry).
\<close>

theorem client_error_not_retried:
  assumes "server env req (clock w) = Resp status parsed ra"
    and "400 \<le> status" and "status < 500" and "status \<noteq> 429"
  shows "jira_loop env req max_attempts attempt w =
           Some (Inl (HTTPError status), w\<lparr>clock := clock w + 1, trace := trace w @ [HttpGet req]\<rparr>)
         \<and> jira_get env req max_attempts w =
           Some (Inl (HTTPError status), w\<lparr>clock := clock w + 1, trace := trace w @ [HttpGet req]\<rparr>)"
  unfolding jira_get_def using assms
  by (simp add: jira_loop.simps[of env req max_attempts _ w] session_get_def sent_def
        raises_for_status_def emit_def)

theorem client_error_not_retried_witness:
  "jira_get (env_of not_found_server) (CommentsOf ''HADOOP-1'') 6 fresh =
     Some (Inl (HTTPError 404),
           \<lparr>clock = 1, draws = 0, ckpts = Map.empty, outs = Map.empty,
            trace = [HttpGet (CommentsOf ''HADOOP-1'')]\<rparr>)"
  using client_error_not_retried
          [of "env_of not_found_server" "CommentsOf ''HADOOP-1''" fresh 404 None None 6 0]
  by (simp add: not_found_server_def fresh_def)

subsection \<open>The backoff\<close>

text \<open>
  Below index 1024 the delay before jitter is \<^verbatim>\<open>min(cap, base * 2 ** k)\<close>, the product
  rounded to a float; with the defaults, where the product is a power of two and exact,
  it doubles from 1 up to 32 and is 60 from index 6 on.
\<close>

lemma backoff_delay_below_overflow:
  "k < 1024 \<Longrightarrow> backoff_delay env k base cap = Inr (min cap (fl env (base * 2 ^ k)))"
  by (simp add: backoff_delay_def)

lemma backoff_delay_defaults:
  assumes "k < 1024" and "fl env (2 ^ k) = 2 ^ k"
  shows "backoff_delay env k 1 60 = Inr (if k < 6 then 2 ^ k else 60)"
proof (cases "k < 6")
  case True
  then have "(2::real) ^ k \<le> 2 ^ 5" by (intro power_increasing) simp_all
  then have "(2::real) ^ k \<le> 60" by simp
  with assms True show ?thesis by (simp add: backoff_delay_def min_def)
next
  case False
  then have "(2::real) ^ 6 \<le> 2 ^ k" by (intro power_increasing) simp_all
  then have "(60::real) \<le> 2 ^ k" by simp
  with assms False show ?thesis by (simp add: backoff_delay_def min_def)
qed

text \<open>
  For a draw in \<open>[0, 1)\<close> the factor of the jitter lies in \<open>[0.5, 1]\<close>, whenever rounding
  is monotone and leaves 0, 0.5 and 1 as they are.
\<close>

lemma jitter_band:
  assumes mono: "\<And>x y. x \<le> y \<Longrightarrow> fl env x \<le> fl env y"
    and exact: "fl env 0 = 0" "fl env (1 / 2) = 1 / 2" "fl env 1 = 1"
    and r: "0 \<le> r" "r < 1"
  shows "1 / 2 \<le> jitter env r \<and> jitter env r \<le> 1"
proof -
  have "fl env 0 \<le> fl env (r * 0.5)" using r by (intro mono) simp
  then have lo: "0 \<le> fl env (r * 0.5)" using exact by simp
  have "fl env (r * 0.5) \<le> fl env (1 / 2)" using r by (intro mono) simp
  then have hi: "fl env (r * 0.5) \<le> 1 / 2" using exact by simp
  have "fl env (1 / 2) \<le> fl env (0.5 + fl env (r * 0.5))" using lo by (intro mono) simp
  moreover have "fl env (0.5 + fl env (r * 0.5)) \<le> fl env 1" using hi by (intro mono) simp
  ultimately show ?thesis using exact by (simp add: jitter_def)
qed




subsection \<open>The 429 branch\<close>

lemma py_int_Nil: "py_int env [] = None"
  by (simp add: py_int_def int_strip_def)

text \<open>
  C7 (amended). On a 429 response whose \<^verbatim>\<open>Retry-After\<close> header \<^verbatim>\<open>int\<close> reads as \<open>n\<close>,
  the transport calls \<^verbatim>\<open>time.sleep(n + 1)\<close> and, when the platform does not refuse that
  length, has slept \<open>n + 1\<close> seconds; on a header that is not empty and that \<^verbatim>\<open>int\<close>
  rejects it sleeps 61 seconds in the same way; with no header (or an empty one) it
  applies the computed backoff. In each case the attempt counter goes up by one and the
  error surfaces once it exceeds \<^verbatim>\<open>max_attempts\<close>; otherwise the next attempt follows.
\<close>

theorem retry_after_wait:
  assumes "server env req (clock w) = Resp 429 parsed ra"
  shows
    "(\<forall>h n. ra = Some h \<and> py_int env h = Some n
            \<and> lib_error env (SleepFor (of_int (n + 1))) (sent req w) = None \<longrightarrow>
        jira_loop env req max_attempts attempt w =
          (if attempt + 1 > max_attempts
           then Some (Inl (HTTPError 429), emit (Sleep (of_int (n + 1))) (sent req w))
           else jira_loop env req max_attempts (attempt + 1)
                  (emit (Sleep (of_int (n + 1))) (sent req w))))
     \<and> (\<forall>h. ra = Some h \<and> h \<noteq> [] \<and> py_int env h = None
            \<and> lib_error env (SleepFor 61) (sent req w) = None \<longrightarrow>
        jira_loop env req max_attempts attempt w =
          (if attempt + 1 > max_attempts
           then Some (Inl (HTTPError 429), emit (Sleep 61) (sent req w))
           else jira_loop env req max_attempts (attempt + 1) (emit (Sleep 61) (sent req w))))
     \<and> (ra = None \<or> ra = Some [] \<longrightarrow>
        jira_loop env req max_attempts attempt w =
          (case backoff_sleep env attempt 1 60 (sent req w) of
             (Inl e, w2) \<Rightarrow> Some (Inl e, w2)
           | (Inr u, w2) \<Rightarrow>
               if attempt + 1 > max_attempts then Some (Inl (HTTPError 429), w2)
               else jira_loop env req max_attempts (attempt + 1) w2))"
proof -
  have step: "jira_loop env req max_attempts attempt w =
      (case rate_limit_wait env attempt ra (sent req w) of
         (Inl e, w2) \<Rightarrow> Some (Inl e, w2)
       | (Inr u, w2) \<Rightarrow>
           if attempt + 1 > max_attempts then Some (Inl (HTTPError 429), w2)
           else jira_loop env req max_attempts (attempt + 1) w2)"
    using assms
    by (simp add: jira_loop.simps[of env req max_attempts attempt w] session_get_def sent_def)
  have a: "\<forall>h n. ra = Some h \<and> py_int env h = Some n
        \<and> lib_error env (SleepFor (of_int (n + 1))) (sent req w) = None \<longrightarrow>
      rate_limit_wait env attempt ra (sent req w) = (Inr (), emit (Sleep (of_int (n + 1))) (sent req w))"
    by (auto simp: rate_limit_wait_def time_sleep_def py_int_Nil)
  have b: "\<forall>h. ra = Some h \<and> h \<noteq> [] \<and> py_int env h = None
        \<and> lib_error env (SleepFor 61) (sent req w) = None \<longrightarrow>
      rate_limit_wait env attempt ra (sent req w) = (Inr (), emit (Sleep 61) (sent req w))"
    by (auto simp: rate_limit_wait_def time_sleep_def)
  have c: "ra = None \<or> ra = Some [] \<longrightarrow>
      rate_limit_wait env attempt ra (sent req w) = backoff_sleep env attempt 1 60 (sent req w)"
    by (auto simp: rate_limit_wait_def)
  show ?thesis
    unfolding step using a b c by auto
qed

theorem retry_after_wait_witness:
  "jira_get (env_of (retry_after_server ''5'')) (CommentsOf ''HADOOP-1'') 6 fresh =
     Some (Inr empty_body,
           \<lparr>clock = 2, draws = 0, ckpts = Map.empty, outs = Map.empty,
            trace = [HttpGet (CommentsOf ''HADOOP-1''), Sleep 6, HttpGet (CommentsOf ''HADOOP-1'')]\<rparr>)
   \<and> jira_get (env_of rate_limited_once_server) (CommentsOf ''HADOOP-1'') 6 fresh =
     Some (Inr empty_body,
           \<lparr>clock = 2, draws = 1, ckpts = Map.empty, outs = Map.empty,
            trace = [HttpGet (CommentsOf ''HADOOP-1''), Sleep (1 / 2), HttpGet (CommentsOf ''HADOOP-1'')]\<rparr>)"
proof -
  have five: "py_int (env_of (retry_after_server ''5'')) ''5'' = Some 5"
    by (simp add: py_int_def int_strip_def is_blank_def is_digit_def too_many_digits_def)
  have ok: "lib_error (env_of (retry_after_server ''5'')) (SleepFor (of_int (5 + 1)))
              (sent (CommentsOf ''HADOOP-1'') fresh) = None"
    by (simp add: lib_error_def)
  have s1: "server (env_of (retry_after_server ''5'')) (CommentsOf ''HADOOP-1'') (clock fresh) = Resp 429 None (Some ''5'')"
    by (simp add: retry_after_server_def fresh_def)
  have s2: "server (env_of rate_limited_once_server) (CommentsOf ''HADOOP-1'') (clock fresh) = Resp 429 None None"
    by (simp add: rate_limited_once_server_def fresh_def)
  from retry_after_wait[OF s1, of 6 0] five ok
  have "jira_loop (env_of (retry_after_server ''5'')) (CommentsOf ''HADOOP-1'') 6 0 fresh =
        jira_loop (env_of (retry_after_server ''5'')) (CommentsOf ''HADOOP-1'') 6 1
          (emit (Sleep 6) (sent (CommentsOf ''HADOOP-1'') fresh))"
    by simp
  moreover from retry_after_wait[OF s2, of 6 0]
  have "jira_loop (env_of rate_limited_once_server) (CommentsOf ''HADOOP-1'') 6 0 fresh =
        jira_loop (env_of rate_limited_once_server) (CommentsOf ''HADOOP-1'') 6 1
          (emit (Sleep (1 / 2)) ((sent (CommentsOf ''HADOOP-1'') fresh)\<lparr>draws := 1\<rparr>))"
    by (simp add: backoff_sleep_def backoff_delay_def jitter_def time_sleep_def lib_error_def
          sent_def emit_def fresh_def)
  ultimately show ?thesis
    by (simp add: jira_get_def jira_loop.simps session_get_def sent_def emit_def fresh_def
          retry_after_server_def rate_limited_once_server_def)
qed

text \<open>
  A header in the HTTP-date form has no number of seconds: \<^verbatim>\<open>int\<close> rejects it and the
  sleep is 61 seconds.
\<close>

theorem retry_after_counterexample:
  "py_int (env_of (retry_after_server ''Wed, 21 Oct 2015 07:28:00 GMT''))
     ''Wed, 21 Oct 2015 07:28:00 GMT'' = None
   \<and> jira_get (env_of (retry_after_server ''Wed, 21 Oct 2015 07:28:00 GMT''))
         (CommentsOf ''HADOOP-1'') 6 fresh =
       Some (Inr empty_body,
             \<lparr>clock = 2, draws = 0, ckpts = Map.empty, outs = Map.empty,
              trace = [HttpGet (CommentsOf ''HADOOP-1''), Sleep 61, HttpGet (CommentsOf ''HADOOP-1'')]\<rparr>)"
  by (simp add: jira_get_def jira_loop.simps session_get_def sent_def retry_after_server_def
        fresh_def emit_def rate_limit_wait_def time_sleep_def lib_error_def py_int_def
        int_strip_def is_blank_def is_digit_def)

subsection \<open>Termination of the transport\<close>

lemma loop_no_content:
  assumes "jira_loop env req m a w = Some y"
  shows "env \<noteq> env_of no_content_server"
proof (rule jira_loop.raw_induct[where P = "\<lambda>env req m a w y. env \<noteq> env_of no_content_server", OF _ assms])
  fix f env req m a and w :: world and y
  assume ih: "\<And>env req m a w y. f env req m a w = Some y \<Longrightarrow> env \<noteq> env_of no_content_server"
    and step: "(case session_get env req w of
        (ConnError, w1) \<Rightarrow>
          if a \<ge> m then Some (Inl RequestException, w1)
          else (case backoff_sleep env a 1 60 w1 of
                  (Inl e, w2) \<Rightarrow> Some (Inl e, w2)
                | (Inr u, w2) \<Rightarrow> f env req m (a + 1) w2)
      | (Resp status parsed ra, w1) \<Rightarrow>
          if status = 200 then
            (case parsed of
               Some b \<Rightarrow> Some (Inr b, w1)
             | None \<Rightarrow>
                 if a \<ge> m then Some (Inl ValueError, w1)
                 else (case backoff_sleep env a 1 60 w1 of
                         (Inl e, w2) \<Rightarrow> Some (Inl e, w2)
                       | (Inr u, w2) \<Rightarrow> f env req m (a + 1) w2))
          else if status = 429 then
            (case rate_limit_wait env a ra w1 of
               (Inl e, w2) \<Rightarrow> Some (Inl e, w2)
             | (Inr u, w2) \<Rightarrow>
                 if a + 1 > m then Some (Inl (HTTPError status), w2)
                 else f env req m (a + 1) w2)
          else if 500 \<le> status \<and> status < 600 then
            (if a \<ge> m then Some (Inl (HTTPError status), w1)
             else (case backoff_sleep env a 1 60 w1 of
                     (Inl e, w2) \<Rightarrow> Some (Inl e, w2)
                   | (Inr u, w2) \<Rightarrow> f env req m (a + 1) w2))
          else if raises_for_status status then Some (Inl (HTTPError status), w1)
          else f env req m a w1) = Some y"
  show "env \<noteq> env_of no_content_server"
  proof
    assume e: "env = env_of no_content_server"
    with step have "f env req m a (snd (session_get env req w)) = Some y"
      by (simp add: session_get_def no_content_server_def raises_for_status_def)
    then have "env \<noteq> env_of no_content_server" by (rule ih)
    with e show False by simp
  qed
qed

text \<open>
  C4. A server that answers every request with status 204 (neither 200 nor 429, and
  outside the range on which \<^verbatim>\<open>raise_for_status\<close> raises): \<^verbatim>\<open>jira_get\<close> requests again
  and again, without sleeping and without counting an attempt, and never returns.
\<close>

theorem jira_get_no_content_diverges:
  "jira_get (env_of no_content_server) req max_attempts w = None"
proof (cases "jira_get (env_of no_content_server) req max_attempts w")
  case None then show ?thesis .
next
  case (Some y)
  then have "jira_loop (env_of no_content_server) req max_attempts 0 w = Some y" by (simp add: jira_get_def)
  from loop_no_content[OF this] show ?thesis by simp
qed

text \<open>
  On the responses the transport has a branch for, it returns or raises after at most
  \<open>max_attempts + 1\<close> requests.
\<close>

lemma time_sleep_clock: "time_sleep env d w = (r, w') \<Longrightarrow> clock w' = clock w"
  by (auto simp: time_sleep_def emit_def split: option.splits)

lemma backoff_sleep_clock: "backoff_sleep env a b c w = (r, w') \<Longrightarrow> clock w' = clock w"
  by (auto simp: backoff_sleep_def dest: time_sleep_clock split: sum.splits)

lemma rate_limit_wait_clock: "rate_limit_wait env a ra w = (r, w') \<Longrightarrow> clock w' = clock w"
  by (auto simp: rate_limit_wait_def dest: backoff_sleep_clock time_sleep_clock split: if_splits)

lemma jira_loop_terminates:
  assumes h: "\<And>n. handled (server env req n)"
  shows "a \<le> m \<Longrightarrow> \<exists>r w'. jira_loop env req m a (w::world) = Some (r, w') \<and> clock w' \<le> clock w + (m + 1 - a)"
proof (induction "m - a" arbitrary: a w)
  case 0
  then have am: "a = m" by simp
  obtain w1 where w1: "w1 = snd (session_get env req w)" by simp
  have c1: "clock w1 = clock w + 1" by (simp add: w1 session_get_def emit_def sent_def)
  show ?case
  proof (cases "server env req (clock w)")
    case ConnError
    then show ?thesis using am c1 w1 by (subst jira_loop.simps) (simp add: session_get_def)
  next
    case (Resp status parsed ra)
    obtain r2 w2 where rl: "rate_limit_wait env a ra w1 = (r2, w2)" by (cases "rate_limit_wait env a ra w1")
    from rate_limit_wait_clock[OF rl] have c2: "clock w2 = clock w + 1" using c1 by simp
    from h[of "clock w"] Resp have hs: "status = 200 \<or> status = 429 \<or> raises_for_status status"
      by (simp add: handled_def)
    show ?thesis using Resp am c1 c2 hs rl w1
      by (subst jira_loop.simps) (auto simp: session_get_def split: option.splits sum.splits)
  qed
next
  case (Suc n)
  then have lt: "a < m" and n: "n = m - (a + 1)" and le: "a + 1 \<le> m" by simp_all
  obtain w1 where w1: "w1 = snd (session_get env req w)" by simp
  have c1: "clock w1 = clock w + 1" by (simp add: w1 session_get_def emit_def sent_def)
  have rec: "\<And>w2::world. clock w2 = clock w + 1 \<Longrightarrow> \<exists>r w'. jira_loop env req m (a + 1) w2 = Some (r, w') \<and> clock w' \<le> clock w + (m + 1 - a)"
  proof -
    fix w2 :: world assume c: "clock w2 = clock w + 1"
    from Suc(1)[OF n le, of w2] obtain r w' where "jira_loop env req m (a + 1) w2 = Some (r, w')" "clock w' \<le> clock w2 + (m + 1 - (a + 1))" by blast
    then show "\<exists>r w'. jira_loop env req m (a + 1) w2 = Some (r, w') \<and> clock w' \<le> clock w + (m + 1 - a)"
      using c lt by auto
  qed
  obtain r3 w3 where bs: "backoff_sleep env a 1 60 w1 = (r3, w3)" by (cases "backoff_sleep env a 1 60 w1")
  from backoff_sleep_clock[OF bs] have c3: "clock w3 = clock w + 1" using c1 by simp
  show ?case
  proof (cases "server env req (clock w)")
    case ConnError
    then show ?thesis using lt c1 c3 w1 bs rec[OF c3]
      by (subst jira_loop.simps) (auto simp: session_get_def split: sum.splits)
  next
    case (Resp status parsed ra)
    obtain r2 w2 where rl: "rate_limit_wait env a ra w1 = (r2, w2)" by (cases "rate_limit_wait env a ra w1")
    from rate_limit_wait_clock[OF rl] have c2: "clock w2 = clock w + 1" using c1 by simp
    from h[of "clock w"] Resp have hs: "status = 200 \<or> status = 429 \<or> raises_for_status status"
      by (simp add: handled_def)
    show ?thesis using Resp lt c1 c2 c3 hs rl bs w1 rec[OF c2] rec[OF c3]
      by (subst jira_loop.simps) (auto simp: session_get_def split: option.splits sum.splits)
  qed
qed

subsection \<open>What a run can change\<close>

lemma extends_refl [simp]: "extends w w" "since w w = []"
  by (simp_all add: extends_def since_def)

lemma extends_iff: "extends w w' \<longleftrightarrow> trace w' = trace w @ since w w'"
  unfolding extends_def since_def by (metis append_take_drop_id append_eq_conv_conj)

lemma extendsI: "trace w' = trace w @ evs \<Longrightarrow> extends w w' \<and> since w w' = evs"
  by (simp add: extends_def since_def)

lemma extends_trans:
  assumes "extends w w1" and "extends w1 w2"
  shows "extends w w2 \<and> since w w2 = since w w1 @ since w1 w2"
proof -
  from assms have "trace w2 = trace w @ (since w w1 @ since w1 w2)"
    by (simp add: extends_iff)
  then show ?thesis by (rule extendsI)
qed

lemma since_emit: "extends w (emit e w) \<and> since w (emit e w) = [e]"
  by (rule extendsI) (simp add: emit_def)

lemma net_only_refl [simp]: "net_only w w"
  by (simp add: net_only_def)

lemma net_only_trans: "net_only w w1 \<Longrightarrow> net_only w1 w2 \<Longrightarrow> net_only w w2"
  using extends_trans[of w w1 w2] by (auto simp: net_only_def)

lemma net_only_sent: "net_only w (sent req w)"
  using extendsI[of "sent req w" w "[HttpGet req]"]
  by (simp add: net_only_def sent_def emit_def)

lemma net_only_time_sleep: "time_sleep env d w = (r, w') \<Longrightarrow> net_only w w'"
  using extendsI[of "emit (Sleep d) w" w "[Sleep d]"]
  by (auto simp: time_sleep_def net_only_def emit_def split: option.splits)

lemma net_only_draw: "net_only w (w\<lparr>draws := n\<rparr>)"
  using extendsI[of "w\<lparr>draws := n\<rparr>" w "[]"] by (simp add: net_only_def)

lemma net_only_backoff_sleep: "backoff_sleep env a b c w = (r, w') \<Longrightarrow> net_only w w'"
  unfolding backoff_sleep_def
  by (auto split: sum.splits intro: net_only_trans[OF net_only_draw net_only_time_sleep])

lemma net_only_rate_limit_wait: "rate_limit_wait env a ra w = (r, w') \<Longrightarrow> net_only w w'"
  unfolding rate_limit_wait_def
  by (auto split: if_splits intro: net_only_time_sleep net_only_backoff_sleep)

lemma jira_loop_net_only:
  assumes "jira_loop env req m a w = Some y"
  shows "net_only w (snd y)"
proof (rule jira_loop.raw_induct[where P = "\<lambda>env req m a w y. net_only w (snd y)", OF _ assms],
    goal_cases)
  case (1 f env req m a w y)
  have s: "net_only w (sent req w)" by (rule net_only_sent)
  have b: "\<And>r w2. backoff_sleep env a 1 60 (sent req w) = (r, w2) \<Longrightarrow> net_only w w2"
    by (rule net_only_trans[OF s net_only_backoff_sleep])
  have l: "\<And>r w2. rate_limit_wait env a ra (sent req w) = (r, w2) \<Longrightarrow> net_only w w2" for ra
    by (rule net_only_trans[OF s net_only_rate_limit_wait])
  have ih: "\<And>a' w2. net_only w w2 \<Longrightarrow> f env req m a' w2 = Some y \<Longrightarrow> net_only w (snd y)"
    using 1(1) net_only_trans by blast
  from 1(2) show ?case
    by (auto simp: session_get_def split: response.splits if_splits prod.splits sum.splits
          option.splits intro: s b l ih dest: b l)
qed

lemma jira_get_net_only: "jira_get env req m w = Some (r, w') \<Longrightarrow> net_only w w'"
  using jira_loop_net_only[of env req m 0 w "(r, w')"] by (simp add: jira_get_def)

lemma appended_append [simp]: "appended (xs @ ys) = appended xs @ appended ys"
  by (induction xs rule: appended.induct) simp_all

lemma appended_net: "list_all is_net es \<Longrightarrow> appended es = []"
  by (induction es rule: appended.induct) simp_all

lemma saves_append [simp]: "saves (xs @ ys) = saves xs @ saves ys"
  by (induction xs rule: saves.induct) simp_all

lemma renames_append [simp]: "renames (xs @ ys) = renames xs @ renames ys"
  by (induction xs rule: renames.induct) simp_all

lemma requests_append [simp]: "requests (xs @ ys) = requests xs @ requests ys"
  by (induction xs rule: requests.induct) simp_all

lemma warnings_append [simp]: "warnings (xs @ ys) = warnings xs @ warnings ys"
  by (induction xs rule: warnings.induct) simp_all

lemma warnings_net: "list_all is_net es \<Longrightarrow> warnings es = []"
  by (induction es rule: warnings.induct) simp_all

lemma is_net_item: "is_net e \<Longrightarrow> is_item_event out_tmp e"
  by (cases e) simp_all

lemma saves_items: "list_all (is_item_event out_tmp) es \<Longrightarrow> saves es = []"
  by (induction es rule: saves.induct) simp_all

lemma renames_scan: "list_all (is_scan_event project out_tmp) es \<Longrightarrow> renames es = []"
  by (induction es rule: renames.induct) simp_all

lemma item_only_refl [simp]: "item_only out_tmp w w"
  by (simp add: item_only_def)

lemma item_only_trans:
  "item_only out_tmp w w1 \<Longrightarrow> item_only out_tmp w1 w2 \<Longrightarrow> item_only out_tmp w w2"
  using extends_trans[of w w1 w2] by (auto simp: item_only_def)

lemma net_only_item: "net_only w w' \<Longrightarrow> item_only out_tmp w w'"
  by (auto simp: net_only_def item_only_def lines_of_def appended_net list_all_iff is_net_item)

lemma item_only_warn: "item_only out_tmp w (emit (Warn k e) w)"
  using extendsI[of "emit (Warn k e) w" w "[Warn k e]"]
  by (simp add: item_only_def emit_def lines_of_def)

lemma item_only_warned: "item_only out_tmp w (warned k fetched w)"
  by (cases fetched) (simp_all add: warned_def item_only_warn)

lemma appended_warned: "extends w (warned k fetched w) \<and> appended (since w (warned k fetched w)) = []"
  using since_emit[of w "Warn k x" for x] by (cases fetched) (simp_all add: warned_def)

lemma append_line_failed: "append_line env path r w = (Inl e, w') \<Longrightarrow> w' = w"
  by (auto simp: append_line_def split: option.splits)

lemma append_line_done:
  "append_line env path r w = (Inr u, w') \<Longrightarrow>
     w' = emit (AppendLine path r) (w\<lparr>outs := (outs w)(path \<mapsto> lines_of w path @ [r])\<rparr>)"
  by (auto simp: append_line_def split: option.splits)

lemma since_append_line:
  "append_line env path r w = (Inr u, w') \<Longrightarrow> extends w w' \<and> since w w' = [AppendLine path r]"
  by (rule extendsI) (auto simp: emit_def dest: append_line_done)

lemma item_only_append_line: "append_line env out_tmp r w = (res, w') \<Longrightarrow> item_only out_tmp w w'"
proof (cases res)
  case (Inl e)
  assume "append_line env out_tmp r w = (res, w')"
  with Inl have "w' = w" by (auto dest: append_line_failed)
  then show ?thesis by simp
next
  case (Inr u)
  assume a: "append_line env out_tmp r w = (res, w')"
  from since_append_line[OF a[unfolded Inr]] append_line_done[OF a[unfolded Inr]]
  show ?thesis by (simp add: item_only_def emit_def lines_of_def)
qed

lemma fetch_comments_net_only:
  "fetch_comments env k w = Some (r, w') \<Longrightarrow> net_only w w'"
  unfolding fetch_comments_def
  by (auto split: option.splits sum.splits prod.splits dest: jira_get_net_only)

lemma issue_to_record_key: "issue_to_record env issue cs = Inr r \<Longrightarrow> r_key r = i_key issue"
  by (auto simp: issue_to_record_def Let_def split: option.splits jobj.splits sum.splits if_splits)

lemma issue_to_record_comments: "issue_to_record env issue cs = Inr r \<Longrightarrow> r_comments r = cs"
  by (auto simp: issue_to_record_def Let_def split: option.splits jobj.splits sum.splits if_splits)

lemma process_item_effects:
  assumes "process_item env out_tmp issue processed w = Some (r, w')"
  shows "item_only out_tmp w w'
         \<and> (\<forall>p'. r = Inr p' \<longrightarrow>
               processed \<subseteq> p' \<and> p' \<subseteq> processed \<union> r_key ` set (appended (since w w')))"
proof (cases "i_key issue \<in> processed")
  case True
  with assms show ?thesis by (auto simp: process_item_def)
next
  case False
  with assms obtain fetched w1 where f: "fetch_comments env (i_key issue) w = Some (fetched, w1)"
    by (auto simp: process_item_def split: option.splits)
  define w2 where "w2 = warned (i_key issue) fetched w1"
  define cs where "cs = comments_or_none fetched"
  have i1: "item_only out_tmp w w1"
    using fetch_comments_net_only[OF f] by (rule net_only_item)
  have i12: "item_only out_tmp w1 w2"
    by (simp add: w2_def item_only_warned)
  have i2: "item_only out_tmp w w2" using i1 i12 by (rule item_only_trans)
  have n2: "appended (since w w2) = []"
  proof -
    have "appended (since w w1) = []"
      using fetch_comments_net_only[OF f] by (simp add: net_only_def appended_net)
    moreover have "appended (since w1 w2) = []"
      using appended_warned[of w1 "i_key issue" fetched] by (simp add: w2_def)
    moreover have "since w w2 = since w w1 @ since w1 w2"
      using extends_trans[of w w1 w2] i1 i12 by (simp add: item_only_def)
    ultimately show ?thesis by simp
  qed
  show ?thesis
  proof (cases "issue_to_record env issue cs")
    case (Inl e)
    with assms False f have "r = Inl e" "w' = w2"
      by (simp_all add: process_item_def cs_def w2_def)
    with i2 show ?thesis by simp
  next
    case (Inr rec)
    obtain res w3 where al: "append_line env out_tmp rec w2 = (res, w3)"
      by (cases "append_line env out_tmp rec w2")
    have i23: "item_only out_tmp w2 w3" using al by (rule item_only_append_line)
    show ?thesis
    proof (cases res)
      case (Inl e)
      with assms False f Inr al have "r = Inl e" "w' = w3"
        by (simp_all add: process_item_def cs_def w2_def)
      with item_only_trans[OF i2 i23] show ?thesis by simp
    next
      case res: (Inr u)
      with assms False f Inr al have r: "r = Inr (insert (i_key issue) processed)"
        and w': "w' = w3"
        by (simp_all add: process_item_def cs_def w2_def)
      have i3: "item_only out_tmp w w'"
        unfolding w' using i2 i23 by (rule item_only_trans)
      have "since w w' = since w w2 @ [AppendLine out_tmp rec]"
        using extends_trans[of w w2 w3] i2 since_append_line[OF al[unfolded res]]
        by (simp add: item_only_def w')
      then have "appended (since w w') = [rec]" using n2 by simp
      with i3 r issue_to_record_key[OF Inr] show ?thesis by auto
    qed
  qed
qed

lemma process_item_only:
  "process_item env out_tmp issue processed w = Some (r, w') \<Longrightarrow> item_only out_tmp w w'"
  using process_item_effects by blast

lemma process_item_keys:
  "process_item env out_tmp issue processed w = Some (Inr p', w') \<Longrightarrow>
     processed \<subseteq> p' \<and> p' \<subseteq> processed \<union> r_key ` set (appended (since w w'))"
  using process_item_effects[of env out_tmp issue processed w "Inr p'" w'] by simp

lemma process_items_only:
  "process_items env out_tmp issues processed w = Some (r, w') \<Longrightarrow> item_only out_tmp w w'"
proof (induction issues arbitrary: processed w)
  case Nil
  then show ?case by auto
next
  case (Cons issue rest)
  from Cons.prems obtain r1 w1 where p1: "process_item env out_tmp issue processed w = Some (r1, w1)"
    by (auto split: option.splits)
  note e1 = process_item_only[OF p1]
  show ?case
  proof (cases r1)
    case (Inl e)
    with Cons.prems p1 have "w' = w1" by simp
    with e1 show ?thesis by simp
  next
    case (Inr processed1)
    with Cons.prems p1 have "process_items env out_tmp rest processed1 w1 = Some (r, w')"
      by simp
    from e1 Cons.IH[OF this] show ?thesis by (rule item_only_trans)
  qed
qed

lemma process_items_keys:
  "process_items env out_tmp issues processed w = Some (Inr p', w') \<Longrightarrow>
     processed \<subseteq> p' \<and> p' \<subseteq> processed \<union> r_key ` set (appended (since w w'))"
proof (induction issues arbitrary: processed w)
  case Nil
  then show ?case by auto
next
  case (Cons issue rest)
  from Cons.prems obtain r1 w1 where p1: "process_item env out_tmp issue processed w = Some (r1, w1)"
    by (auto split: option.splits)
  from Cons.prems p1 obtain processed1 where r1: "r1 = Inr processed1"
    by (cases r1) simp_all
  from Cons.prems p1 r1
  have rest: "process_items env out_tmp rest processed1 w1 = Some (Inr p', w')" by simp
  have e1: "extends w w1" using process_item_only[OF p1] by (simp add: item_only_def)
  have e2: "extends w1 w'" using process_items_only[OF rest] by (simp add: item_only_def)
  have s: "since w w' = since w w1 @ since w1 w'"
    using extends_trans[OF e1 e2] by simp
  have k1: "processed \<subseteq> processed1"
    and k2: "processed1 \<subseteq> processed \<union> r_key ` set (appended (since w w1))"
    using process_item_keys[OF p1[unfolded r1]] by simp_all
  have k3: "processed1 \<subseteq> p'"
    and k4: "p' \<subseteq> processed1 \<union> r_key ` set (appended (since w1 w'))"
    using Cons.IH[OF rest] by simp_all
  have "processed \<subseteq> p'" using k1 k3 by (rule subset_trans)
  moreover have "p' \<subseteq> processed \<union> r_key ` set (appended (since w w'))"
  proof
    fix k assume "k \<in> p'"
    with k4 have "k \<in> processed1 \<or> k \<in> r_key ` set (appended (since w1 w'))" by blast
    then show "k \<in> processed \<union> r_key ` set (appended (since w w'))"
    proof
      assume "k \<in> processed1"
      with k2 show ?thesis unfolding s by auto
    next
      assume "k \<in> r_key ` set (appended (since w1 w'))"
      then show ?thesis unfolding s by auto
    qed
  qed
  ultimately show ?case by simp
qed

subsection \<open>The scan, case by case\<close>

lemma save_checkpoint_failed: "save_checkpoint env project c w = (Inl e, w') \<Longrightarrow> w' = w"
  by (auto simp: save_checkpoint_def split: option.splits)

lemma save_checkpoint_done:
  "save_checkpoint env project c w = (Inr u, w') \<Longrightarrow>
     w' = emit (SaveCheckpoint (checkpoint_file project) c)
            (w\<lparr>ckpts := (ckpts w)(checkpoint_file project \<mapsto> c)\<rparr>)"
  by (auto simp: save_checkpoint_def split: option.splits)

lemma since_save_checkpoint:
  "save_checkpoint env project c w = (Inr u, w') \<Longrightarrow>
     extends w w' \<and> since w w' = [SaveCheckpoint (checkpoint_file project) c]"
  by (rule extendsI) (auto simp: emit_def dest: save_checkpoint_done)

lemma time_sleep_failed: "time_sleep env d w = (Inl e, w') \<Longrightarrow> w' = w"
  by (auto simp: time_sleep_def split: option.splits)

lemma time_sleep_done: "time_sleep env d w = (Inr u, w') \<Longrightarrow> w' = emit (Sleep d) w"
  by (auto simp: time_sleep_def split: option.splits)

lemma scan_induct [consumes 1, case_names fetch_error not_object empty_page item_error
    save_error stop sleep_error continue]:
  assumes run: "scan env project jql out_tmp startAt processed total_seen w = Some y"
    and fetch_error: "\<And>startAt processed total_seen w e w1.
      jira_get env (Search jql startAt DEFAULT_MAX_RESULTS) 6 w = Some (Inl e, w1) \<Longrightarrow>
      P startAt processed total_seen w (Inl e, w1)"
    and not_object: "\<And>startAt processed total_seen w data w1 e.
      jira_get env (Search jql startAt DEFAULT_MAX_RESULTS) 6 w = Some (Inr data, w1) \<Longrightarrow>
      page_issues data = Inl e \<Longrightarrow>
      P startAt processed total_seen w (Inl e, w1)"
    and empty_page: "\<And>startAt processed total_seen w data w1.
      jira_get env (Search jql startAt DEFAULT_MAX_RESULTS) 6 w = Some (Inr data, w1) \<Longrightarrow>
      page_issues data = Inr [] \<Longrightarrow>
      P startAt processed total_seen w (Inr (startAt, processed), w1)"
    and item_error: "\<And>startAt processed total_seen w data w1 issues e w2.
      jira_get env (Search jql startAt DEFAULT_MAX_RESULTS) 6 w = Some (Inr data, w1) \<Longrightarrow>
      page_issues data = Inr issues \<Longrightarrow> issues \<noteq> [] \<Longrightarrow>
      process_items env out_tmp issues processed w1 = Some (Inl e, w2) \<Longrightarrow>
      P startAt processed total_seen w (Inl e, w2)"
    and save_error: "\<And>startAt processed total_seen w data w1 issues processed1 w2 e w3.
      jira_get env (Search jql startAt DEFAULT_MAX_RESULTS) 6 w = Some (Inr data, w1) \<Longrightarrow>
      page_issues data = Inr issues \<Longrightarrow> issues \<noteq> [] \<Longrightarrow>
      process_items env out_tmp issues processed w1 = Some (Inr processed1, w2) \<Longrightarrow>
      save_checkpoint env project
        \<lparr>ck_startAt = startAt + int (length issues), ck_processed = processed1\<rparr> w2
        = (Inl e, w3) \<Longrightarrow>
      P startAt processed total_seen w (Inl e, w3)"
    and stop: "\<And>startAt processed total_seen w data w1 issues processed1 w2 u w3.
      jira_get env (Search jql startAt DEFAULT_MAX_RESULTS) 6 w = Some (Inr data, w1) \<Longrightarrow>
      page_issues data = Inr issues \<Longrightarrow> issues \<noteq> [] \<Longrightarrow>
      process_items env out_tmp issues processed w1 = Some (Inr processed1, w2) \<Longrightarrow>
      save_checkpoint env project
        \<lparr>ck_startAt = startAt + int (length issues), ck_processed = processed1\<rparr> w2
        = (Inr u, w3) \<Longrightarrow>
      stop_condition (seen_total total_seen data) (startAt + int (length issues)) \<Longrightarrow>
      P startAt processed total_seen w (Inr (startAt + int (length issues), processed1), w3)"
    and sleep_error: "\<And>startAt processed total_seen w data w1 issues processed1 w2 u w3 e w4.
      jira_get env (Search jql startAt DEFAULT_MAX_RESULTS) 6 w = Some (Inr data, w1) \<Longrightarrow>
      page_issues data = Inr issues \<Longrightarrow> issues \<noteq> [] \<Longrightarrow>
      process_items env out_tmp issues processed w1 = Some (Inr processed1, w2) \<Longrightarrow>
      save_checkpoint env project
        \<lparr>ck_startAt = startAt + int (length issues), ck_processed = processed1\<rparr> w2
        = (Inr u, w3) \<Longrightarrow>
      \<not> stop_condition (seen_total total_seen data) (startAt + int (length issues)) \<Longrightarrow>
      time_sleep env 0.5 w3 = (Inl e, w4) \<Longrightarrow>
      P startAt processed total_seen w (Inl e, w4)"
    and continue: "\<And>startAt processed total_seen w data w1 issues processed1 w2 u w3 v w4 y.
      jira_get env (Search jql startAt DEFAULT_MAX_RESULTS) 6 w = Some (Inr data, w1) \<Longrightarrow>
      page_issues data = Inr issues \<Longrightarrow> issues \<noteq> [] \<Longrightarrow>
      process_items env out_tmp issues processed w1 = Some (Inr processed1, w2) \<Longrightarrow>
      save_checkpoint env project
        \<lparr>ck_startAt = startAt + int (length issues), ck_processed = processed1\<rparr> w2
        = (Inr u, w3) \<Longrightarrow>
      \<not> stop_condition (seen_total total_seen data) (startAt + int (length issues)) \<Longrightarrow>
      time_sleep env 0.5 w3 = (Inr v, w4) \<Longrightarrow>
      P (startAt + int (length issues)) processed1 (seen_total total_seen data) w4 y \<Longrightarrow>
      P startAt processed total_seen w y"
  shows "P startAt processed total_seen w y"
proof -
  have "env' = env \<and> project' = project \<and> jql' = jql \<and> out_tmp' = out_tmp
          \<longrightarrow> P startAt processed total_seen w y"
    if "scan env' project' jql' out_tmp' startAt processed total_seen w = Some y"
    for env' project' jql' out_tmp'
  proof (rule scan.raw_induct[where P = "\<lambda>env' project' jql' out_tmp' startAt processed total_seen w y.
            env' = env \<and> project' = project \<and> jql' = jql \<and> out_tmp' = out_tmp
              \<longrightarrow> P startAt processed total_seen w y", OF _ that], goal_cases)
    case (1 f env' project' jql' out_tmp' startAt processed total_seen w y)
    show ?case
    proof
      assume eq: "env' = env \<and> project' = project \<and> jql' = jql \<and> out_tmp' = out_tmp"
      note step = 1(2)
      show "P startAt processed total_seen w y"
      proof (cases "jira_get env (Search jql startAt DEFAULT_MAX_RESULTS) 6 w")
        case None
        with step eq show ?thesis by simp
      next
        case (Some a)
        obtain r w1 where a: "a = (r, w1)" by (cases a)
        show ?thesis
        proof (cases r)
          case (Inl e)
          with step eq Some a have "y = (Inl e, w1)" by simp
          with fetch_error Some a Inl show ?thesis by simp
        next
          case (Inr data)
          note g = Some[unfolded a Inr]
          show ?thesis
          proof (cases "page_issues data")
            case (Inl e)
            with step eq g have "y = (Inl e, w1)" by simp
            with not_object[OF g Inl] show ?thesis by simp
          next
            case pg: (Inr issues)
            show ?thesis
            proof (cases "issues = []")
              case True
              with step eq g pg have "y = (Inr (startAt, processed), w1)" by simp
              with empty_page[OF g pg[unfolded True]] show ?thesis by simp
            next
              case False
              show ?thesis
              proof (cases "process_items env out_tmp issues processed w1")
                case None
                with step eq g pg False show ?thesis by simp
              next
                case (Some b)
                obtain r2 w2 where b: "b = (r2, w2)" by (cases b)
                show ?thesis
                proof (cases r2)
                  case (Inl e)
                  with step eq g pg False Some b have "y = (Inl e, w2)" by simp
                  with item_error[OF g pg False] Some b Inl show ?thesis by simp
                next
                  case (Inr processed1)
                  note pi = Some[unfolded b Inr]
                  obtain r3 w3 where sv: "save_checkpoint env project
                      \<lparr>ck_startAt = startAt + int (length issues), ck_processed = processed1\<rparr> w2
                      = (r3, w3)"
                    by (cases "save_checkpoint env project
                      \<lparr>ck_startAt = startAt + int (length issues), ck_processed = processed1\<rparr> w2")
                  show ?thesis
                  proof (cases r3)
                    case (Inl e)
                    with step eq g pg False pi sv have "y = (Inl e, w3)" by simp
                    with save_error[OF g pg False pi sv[unfolded Inl]] show ?thesis by simp
                  next
                    case saved: (Inr u)
                    note sv' = sv[unfolded saved]
                    show ?thesis
                    proof (cases "stop_condition (seen_total total_seen data)
                                    (startAt + int (length issues))")
                      case True
                      with step eq g pg False pi sv'
                      have "y = (Inr (startAt + int (length issues), processed1), w3)"
                        by simp
                      with stop[OF g pg False pi sv' True] show ?thesis by simp
                    next
                      case nostop: False
                      obtain r4 w4 where sl: "time_sleep env 0.5 w3 = (r4, w4)"
                        by (cases "time_sleep env 0.5 w3")
                      show ?thesis
                      proof (cases r4)
                        case (Inl e)
                        with step eq g pg False pi sv' nostop sl have "y = (Inl e, w4)" by simp
                        with sleep_error[OF g pg False pi sv' nostop sl[unfolded Inl]]
                        show ?thesis by simp
                      next
                        case slept: (Inr v)
                        with step eq g pg False pi sv' nostop sl
                        have "f env project jql out_tmp (startAt + int (length issues))
                                processed1 (seen_total total_seen data) w4 = Some y"
                          by simp
                        from 1(1)[OF this]
                        have "P (startAt + int (length issues)) processed1
                                (seen_total total_seen data) w4 y"
                          by simp
                        from continue[OF g pg False pi sv' nostop sl[unfolded slept] this]
                        show ?thesis .
                      qed
                    qed
                  qed
                qed
              qed
            qed
          qed
        qed
      qed
    qed
  qed
  from this[OF run] show ?thesis by simp
qed

subsection \<open>Invariants of the scan\<close>

lemma is_item_scan: "is_item_event out_tmp e \<Longrightarrow> is_scan_event project out_tmp e"
  by (cases e) simp_all

lemma item_only_scan: "item_only out_tmp w w' \<Longrightarrow> scan_only project out_tmp w w'"
  by (simp add: item_only_def scan_only_def list_all_iff is_item_scan)

lemma scan_only_refl [simp]: "scan_only project out_tmp w w"
  by (simp add: scan_only_def)

lemma scan_only_trans:
  assumes "scan_only project out_tmp w w1" and "scan_only project out_tmp w1 w2"
  shows "scan_only project out_tmp w w2"
proof -
  from assms have e: "extends w w1" "extends w1 w2" by (simp_all add: scan_only_def)
  note t = extends_trans[OF e]
  from assms t show ?thesis by (simp add: scan_only_def)
qed

lemma scan_only_save:
  assumes "save_checkpoint env project c w = (res, w')"
  shows "scan_only project out_tmp w w'"
proof (cases res)
  case (Inl e)
  with assms have "w' = w" by (auto dest: save_checkpoint_failed)
  then show ?thesis by simp
next
  case (Inr u)
  from since_save_checkpoint[OF assms[unfolded Inr]] save_checkpoint_done[OF assms[unfolded Inr]]
  show ?thesis by (simp add: scan_only_def) (simp add: emit_def lines_of_def)
qed

lemma scan_only_sleep: "time_sleep env d w = (res, w') \<Longrightarrow> scan_only project out_tmp w w'"
  by (rule item_only_scan[OF net_only_item[OF net_only_time_sleep]])

lemma jira_get_scan_only: "jira_get env req m w = Some (r, w') \<Longrightarrow> scan_only project out_tmp w w'"
  by (rule item_only_scan[OF net_only_item[OF jira_get_net_only]])

lemma process_items_scan_only:
  "process_items env out_tmp issues processed w = Some (r, w') \<Longrightarrow> scan_only project out_tmp w w'"
  by (rule item_only_scan[OF process_items_only])

lemma scan_scan_only:
  assumes "scan env project jql out_tmp startAt processed total_seen w = Some y"
  shows "scan_only project out_tmp w (snd y)"
  using assms
proof (induction rule: scan_induct)
  case (fetch_error startAt processed total_seen w e w1)
  then show ?case by (simp add: jira_get_scan_only)
next
  case (not_object startAt processed total_seen w data w1 e)
  then show ?case by (simp add: jira_get_scan_only)
next
  case (empty_page startAt processed total_seen w data w1)
  then show ?case by (simp add: jira_get_scan_only)
next
  case (item_error startAt processed total_seen w data w1 issues e w2)
  from jira_get_scan_only[OF item_error(1)] process_items_scan_only[OF item_error(4)]
  have "scan_only project out_tmp w w2" by (rule scan_only_trans)
  then show ?case by simp
next
  case (save_error startAt processed total_seen w data w1 issues processed1 w2 e w3)
  from jira_get_scan_only[OF save_error(1)] process_items_scan_only[OF save_error(4)]
  have "scan_only project out_tmp w w2" by (rule scan_only_trans)
  then have "scan_only project out_tmp w w3"
    using scan_only_save[OF save_error(5)] by (rule scan_only_trans)
  then show ?case by simp
next
  case (stop startAt processed total_seen w data w1 issues processed1 w2 u w3)
  from jira_get_scan_only[OF stop(1)] process_items_scan_only[OF stop(4)]
  have "scan_only project out_tmp w w2" by (rule scan_only_trans)
  then have "scan_only project out_tmp w w3"
    using scan_only_save[OF stop(5)] by (rule scan_only_trans)
  then show ?case by simp
next
  case (sleep_error startAt processed total_seen w data w1 issues processed1 w2 u w3 e w4)
  from jira_get_scan_only[OF sleep_error(1)] process_items_scan_only[OF sleep_error(4)]
  have "scan_only project out_tmp w w2" by (rule scan_only_trans)
  then have "scan_only project out_tmp w w3"
    using scan_only_save[OF sleep_error(5)] by (rule scan_only_trans)
  then have "scan_only project out_tmp w w4"
    using scan_only_sleep[OF sleep_error(7)] by (rule scan_only_trans)
  then show ?case by simp
next
  case (continue startAt processed total_seen w data w1 issues processed1 w2 u w3 v w4 y)
  from jira_get_scan_only[OF continue(1)] process_items_scan_only[OF continue(4)]
  have "scan_only project out_tmp w w2" by (rule scan_only_trans)
  then have "scan_only project out_tmp w w3"
    using scan_only_save[OF continue(5)] by (rule scan_only_trans)
  then have "scan_only project out_tmp w w4"
    using scan_only_sleep[OF continue(7)] by (rule scan_only_trans)
  then show ?case using continue(8) by (rule scan_only_trans)
qed

lemma scan_result_mono:
  assumes "scan env project jql out_tmp startAt processed total_seen w = Some y"
  shows "fst y = Inr (s, p) \<longrightarrow> startAt \<le> s \<and> processed \<subseteq> p"
  using assms
proof (induction rule: scan_induct)
  case (stop startAt processed total_seen w data w1 issues processed1 w2 u w3)
  from process_items_keys[OF stop(4)] show ?case by auto
next
  case (continue startAt processed total_seen w data w1 issues processed1 w2 u w3 v w4 y)
  from process_items_keys[OF continue(4)] continue(8) show ?case by auto
qed simp_all

lemma saves_mono_items:
  "list_all (is_item_event out_tmp) es \<Longrightarrow> saves_mono s p (es @ rest) = saves_mono s p rest"
proof (induction es)
  case Nil
  then show ?case by simp
next
  case (Cons e es)
  then show ?case by (cases e) simp_all
qed

lemma saves_mono_weaken:
  "saves_mono s' p' es \<Longrightarrow> s \<le> s' \<Longrightarrow> p \<subseteq> p' \<Longrightarrow> saves_mono s p es"
proof (induction es)
  case Nil
  then show ?case by simp
next
  case (Cons e es)
  then show ?case by (cases e) auto
qed

lemma covered_items:
  "list_all (is_item_event out_tmp) es \<Longrightarrow>
     covered W (es @ rest) = covered (W \<union> r_key ` set (appended es)) rest"
proof (induction es arbitrary: W)
  case Nil
  then show ?case by simp
next
  case (Cons e es)
  then show ?case by (cases e) simp_all
qed

lemma covered_mono: "covered W es \<Longrightarrow> W \<subseteq> W' \<Longrightarrow> covered W' es"
proof (induction es arbitrary: W W')
  case Nil
  then show ?case by simp
next
  case (Cons e es)
  show ?case
  proof (cases e)
    case (AppendLine path r)
    with Cons.prems have "covered (insert (r_key r) W) es" by simp
    moreover have "insert (r_key r) W \<subseteq> insert (r_key r) W'" using Cons.prems(2) by blast
    ultimately have "covered (insert (r_key r) W') es" by (rule Cons.IH)
    with AppendLine show ?thesis by simp
  next
    case (SaveCheckpoint f c)
    with Cons.prems have "ck_processed c \<subseteq> W" "covered W es" by simp_all
    with Cons.prems(2) Cons.IH[of W W'] SaveCheckpoint show ?thesis by auto
  qed (use Cons.prems Cons.IH[of W W'] in simp_all)
qed

lemma page_items:
  assumes g: "jira_get env req m w = Some (Inr data, w1)"
    and p: "process_items env out_tmp issues processed w1 = Some (r, w2)"
  shows "item_only out_tmp w w2"
  using net_only_item[OF jira_get_net_only[OF g]] process_items_only[OF p]
  by (rule item_only_trans)

lemma page_keys:
  assumes g: "jira_get env req m w = Some (Inr data, w1)"
    and p: "process_items env out_tmp issues processed w1 = Some (Inr processed1, w2)"
  shows "processed \<subseteq> processed1"
    and "processed1 \<subseteq> processed \<union> r_key ` set (appended (since w w2))"
proof -
  have e1: "extends w w1" using jira_get_net_only[OF g] by (simp add: net_only_def)
  have e2: "extends w1 w2" using process_items_only[OF p] by (simp add: item_only_def)
  have s: "since w w2 = since w w1 @ since w1 w2" using extends_trans[OF e1 e2] by simp
  from process_items_keys[OF p] show "processed \<subseteq> processed1" by simp
  from process_items_keys[OF p]
  show "processed1 \<subseteq> processed \<union> r_key ` set (appended (since w w2))"
    unfolding s by auto
qed

text \<open>The effects of one page up to its checkpoint: those of its issues, then the save.\<close>

lemma page_saved:
  assumes g: "jira_get env req m w = Some (Inr data, w1)"
    and p: "process_items env out_tmp issues processed w1 = Some (Inr processed1, w2)"
    and s: "save_checkpoint env project c w2 = (Inr u, w3)"
  shows "extends w w3"
    and "since w w3 = since w w2 @ [SaveCheckpoint (checkpoint_file project) c]"
    and "list_all (is_item_event out_tmp) (since w w2)"
    and "lines_of w3 out_tmp = lines_of w out_tmp @ appended (since w w2)"
proof -
  from page_items[OF g p]
  have e: "extends w w2" and l: "list_all (is_item_event out_tmp) (since w w2)"
    and ln: "lines_of w2 out_tmp = lines_of w out_tmp @ appended (since w w2)"
    by (simp_all add: item_only_def)
  note ss = since_save_checkpoint[OF s]
  from extends_trans[OF e conjunct1[OF ss]] ss
  show "extends w w3" "since w w3 = since w w2 @ [SaveCheckpoint (checkpoint_file project) c]"
    by simp_all
  show "list_all (is_item_event out_tmp) (since w w2)" by (rule l)
  from save_checkpoint_done[OF s] ln
  show "lines_of w3 out_tmp = lines_of w out_tmp @ appended (since w w2)"
    by (simp add: emit_def lines_of_def)
qed

lemma items_trace:
  assumes "item_only out_tmp w w'"
  shows "extends w w' \<and> saves_mono s p (since w w') \<and> covered W (since w w')"
proof -
  from assms have "extends w w'" "list_all (is_item_event out_tmp) (since w w')"
    by (simp_all add: item_only_def)
  then show ?thesis
    using saves_mono_items[of out_tmp "since w w'" s p "[]"]
          covered_items[of out_tmp "since w w'" W "[]"] by simp
qed

lemma scan_trace:
  assumes "scan env project jql out_tmp startAt processed total_seen w = Some y"
  shows "extends w (snd y) \<and> saves_mono startAt processed (since w (snd y))
         \<and> covered processed (since w (snd y))"
  using assms
proof (induction rule: scan_induct)
  case (fetch_error startAt processed total_seen w e w1)
  from net_only_item[OF jira_get_net_only[OF this]] show ?case
    using items_trace by simp
next
  case (not_object startAt processed total_seen w data w1 e)
  from net_only_item[OF jira_get_net_only[OF this(1)]] show ?case
    using items_trace by simp
next
  case (empty_page startAt processed total_seen w data w1)
  from net_only_item[OF jira_get_net_only[OF this(1)]] show ?case
    using items_trace by simp
next
  case (item_error startAt processed total_seen w data w1 issues e w2)
  from page_items[OF item_error(1,4)] show ?case
    using items_trace by simp
next
  case (save_error startAt processed total_seen w data w1 issues processed1 w2 e w3)
  from save_checkpoint_failed[OF save_error(5)] page_items[OF save_error(1,4)] show ?case
    using items_trace by simp
next
  case (stop startAt processed total_seen w data w1 issues processed1 w2 u w3)
  define c where "c = \<lparr>ck_startAt = startAt + int (length issues), ck_processed = processed1\<rparr>"
  note s = page_saved[OF stop(1,4) stop(5)[folded c_def]]
  note k = page_keys[OF stop(1,4)]
  have "saves_mono startAt processed (since w w3)"
    unfolding s(2) saves_mono_items[OF s(3)] using k(1) by (simp add: c_def)
  moreover have "covered processed (since w w3)"
    unfolding s(2) covered_items[OF s(3)] using k(2) by (simp add: c_def)
  ultimately show ?case using s(1) by simp
next
  case (sleep_error startAt processed total_seen w data w1 issues processed1 w2 u w3 e w4)
  define c where "c = \<lparr>ck_startAt = startAt + int (length issues), ck_processed = processed1\<rparr>"
  note s = page_saved[OF sleep_error(1,4) sleep_error(5)[folded c_def]]
  note k = page_keys[OF sleep_error(1,4)]
  have w4: "w4 = w3" using time_sleep_failed[OF sleep_error(7)] .
  have "saves_mono startAt processed (since w w3)"
    unfolding s(2) saves_mono_items[OF s(3)] using k(1) by (simp add: c_def)
  moreover have "covered processed (since w w3)"
    unfolding s(2) covered_items[OF s(3)] using k(2) by (simp add: c_def)
  ultimately show ?case using s(1) w4 by simp
next
  case (continue startAt processed total_seen w data w1 issues processed1 w2 u w3 v w4 y)
  define c where "c = \<lparr>ck_startAt = startAt + int (length issues), ck_processed = processed1\<rparr>"
  note s = page_saved[OF continue(1,4) continue(5)[folded c_def]]
  note k = page_keys[OF continue(1,4)]
  have w4: "w4 = emit (Sleep 0.5) w3" using time_sleep_done[OF continue(7)] .
  have s4: "extends w w4"
    "since w w4 = since w w2 @ [SaveCheckpoint (checkpoint_file project) c, Sleep 0.5]"
    unfolding w4
    using extends_trans[OF s(1) conjunct1[OF since_emit[of w3 "Sleep 0.5"]]]
          since_emit[of w3 "Sleep 0.5"] s(2)
    by simp_all
  from continue(8) have ih: "extends w4 (snd y)"
    "saves_mono (startAt + int (length issues)) processed1 (since w4 (snd y))"
    "covered processed1 (since w4 (snd y))"
    by simp_all
  have sy: "extends w (snd y)"
    "since w (snd y) = since w w2 @ ([SaveCheckpoint (checkpoint_file project) c, Sleep 0.5] @ since w4 (snd y))"
    using extends_trans[OF s4(1) ih(1)] s4(2) by simp_all
  have "saves_mono startAt processed (since w (snd y))"
    unfolding sy(2) saves_mono_items[OF s(3)] using k(1) ih(2) by (simp add: c_def)
  moreover have "covered processed (since w (snd y))"
    unfolding sy(2) covered_items[OF s(3)] using k(2) covered_mono[OF ih(3) k(2)] by (simp add: c_def)
  ultimately show ?case using sy(1) by simp
qed




subsection \<open>The renames\<close>

lemma os_replace_failed: "os_replace env src dst w = (Inl e, w') \<Longrightarrow> w' = w"
  by (auto simp: os_replace_def split: option.splits)

lemma os_replace_done:
  "os_replace env src dst w = (Inr u, w') \<Longrightarrow>
     \<exists>ls. outs w src = Some ls
       \<and> w' = emit (Replace src dst) (w\<lparr>outs := ((outs w)(src := None))(dst \<mapsto> ls)\<rparr>)"
  by (auto simp: os_replace_def split: option.splits)

lemma since_os_replace:
  "os_replace env src dst w = (Inr u, w') \<Longrightarrow> extends w w' \<and> since w w' = [Replace src dst]"
  by (rule extendsI) (auto simp: emit_def dest: os_replace_done)

lemma open_append_failed: "open_append env path w = (Inl e, w') \<Longrightarrow> w' = w"
  by (auto simp: open_append_def split: option.splits)

lemma open_append_done:
  "open_append env path w = (Inr u, w') \<Longrightarrow> w' = w\<lparr>outs := (outs w)(path \<mapsto> lines_of w path)\<rparr>"
  by (auto simp: open_append_def split: option.splits)

lemma same_trace: "trace w0 = trace w \<Longrightarrow> since w0 w' = since w w' \<and> extends w0 w' = extends w w'"
  by (simp add: since_def extends_def)

text \<open>The renames after the loop, outcome by outcome.\<close>

lemma finalize_effects:
  assumes f: "finalize env p w1 = (r, w2)"
  shows "extends w1 w2"
    and "appended (since w1 w2) = []"
    and "outs w1 p = Some old \<Longrightarrow> outs w2 p = Some old \<or> outs w2 (p @ ''.bak'') = Some old"
    and "outs w1 p = None \<Longrightarrow> outs w2 (p @ ''.bak'') = outs w1 (p @ ''.bak'')"
    and "r = Inr u \<Longrightarrow>
           renames (since w1 w2) =
             (if outs w1 p \<noteq> None then [(p, p @ ''.bak''), (p @ ''.tmp'', p)] else [(p @ ''.tmp'', p)])
           \<and> outs w2 p = outs w1 (p @ ''.tmp'') \<and> outs w1 (p @ ''.tmp'') \<noteq> None
           \<and> outs w2 (p @ ''.tmp'') = None"
proof -
  have all: "extends w1 w2 \<and> appended (since w1 w2) = []
    \<and> (outs w1 p = Some old \<longrightarrow> outs w2 p = Some old \<or> outs w2 (p @ ''.bak'') = Some old)
    \<and> (outs w1 p = None \<longrightarrow> outs w2 (p @ ''.bak'') = outs w1 (p @ ''.bak''))
    \<and> (r = Inr u \<longrightarrow>
           renames (since w1 w2) =
             (if outs w1 p \<noteq> None then [(p, p @ ''.bak''), (p @ ''.tmp'', p)] else [(p @ ''.tmp'', p)])
           \<and> outs w2 p = outs w1 (p @ ''.tmp'') \<and> outs w1 (p @ ''.tmp'') \<noteq> None
           \<and> outs w2 (p @ ''.tmp'') = None)"
  proof (cases "outs w1 p")
    case None
    with f have r2: "os_replace env (p @ ''.tmp'') p w1 = (r, w2)" by (simp add: finalize_def)
    show ?thesis
    proof (cases r)
      case (Inl e)
      with os_replace_failed[OF r2[unfolded Inl]] None show ?thesis by simp
    next
      case (Inr v)
      from os_replace_done[OF r2[unfolded Inr]] obtain ls where
        ls: "outs w1 (p @ ''.tmp'') = Some ls"
        and w2: "w2 = emit (Replace (p @ ''.tmp'') p)
                   (w1\<lparr>outs := ((outs w1)(p @ ''.tmp'' := None))(p \<mapsto> ls)\<rparr>)"
        by blast
      from since_os_replace[OF r2[unfolded Inr]] None ls show ?thesis
        by (simp add: w2 emit_def)
    qed
  next
    case (Some prev)
    obtain r1 wa where r1: "os_replace env p (p @ ''.bak'') w1 = (r1, wa)"
      by (cases "os_replace env p (p @ ''.bak'') w1")
    show ?thesis
    proof (cases r1)
      case (Inl e)
      with f Some r1 have "r = Inl e" "w2 = wa" by (simp_all add: finalize_def)
      with os_replace_failed[OF r1[unfolded Inl]] Some show ?thesis by simp
    next
      case first: (Inr v)
      from os_replace_done[OF r1[unfolded first]] Some
      have wa: "wa = emit (Replace p (p @ ''.bak''))
                  (w1\<lparr>outs := ((outs w1)(p := None))(p @ ''.bak'' \<mapsto> prev)\<rparr>)"
        by auto
      note s1 = since_os_replace[OF r1[unfolded first]]
      from f Some r1 first have r2: "os_replace env (p @ ''.tmp'') p wa = (r, w2)"
        by (simp add: finalize_def)
      have oa: "outs wa p = None" "outs wa (p @ ''.bak'') = Some prev"
        "outs wa (p @ ''.tmp'') = outs w1 (p @ ''.tmp'')"
        by (simp_all add: wa emit_def)
      show ?thesis
      proof (cases r)
        case (Inl e)
        with os_replace_failed[OF r2[unfolded Inl]] s1 oa Some show ?thesis by simp
      next
        case (Inr v2)
        from os_replace_done[OF r2[unfolded Inr]] obtain ls where
          ls: "outs wa (p @ ''.tmp'') = Some ls"
          and w2: "w2 = emit (Replace (p @ ''.tmp'') p)
                     (wa\<lparr>outs := ((outs wa)(p @ ''.tmp'' := None))(p \<mapsto> ls)\<rparr>)"
          by blast
        note s2 = since_os_replace[OF r2[unfolded Inr]]
        have e: "extends w1 w2" "since w1 w2 = [Replace p (p @ ''.bak''), Replace (p @ ''.tmp'') p]"
          using extends_trans[OF conjunct1[OF s1] conjunct1[OF s2]] s1 s2 by simp_all
        have o2: "outs w2 p = Some ls" "outs w2 (p @ ''.bak'') = Some prev"
          "outs w2 (p @ ''.tmp'') = None"
          using oa by (simp_all add: w2 emit_def)
        from e o2 ls oa Some show ?thesis by simp
      qed
    qed
  qed
  from all show "extends w1 w2" by simp
  from all show "appended (since w1 w2) = []" by simp
  from all show "outs w1 p = Some old \<Longrightarrow> outs w2 p = Some old \<or> outs w2 (p @ ''.bak'') = Some old"
    by simp
  from all show "outs w1 p = None \<Longrightarrow> outs w2 (p @ ''.bak'') = outs w1 (p @ ''.bak'')" by simp
  from all show "r = Inr u \<Longrightarrow>
           renames (since w1 w2) =
             (if outs w1 p \<noteq> None then [(p, p @ ''.bak''), (p @ ''.tmp'', p)] else [(p @ ''.tmp'', p)])
           \<and> outs w2 p = outs w1 (p @ ''.tmp'') \<and> outs w1 (p @ ''.tmp'') \<noteq> None
           \<and> outs w2 (p @ ''.tmp'') = None" by simp
qed

text \<open>A run ends before the renames, or it is a completed scan followed by the renames.\<close>

lemma scrape_project_cases:
  assumes run: "scrape_project env project out_path jql w = Some (r, w')"
  shows "(extends w w' \<and> renames (since w w') = [] \<and> (\<exists>e. r = Inl e)
          \<and> outs w' out_path = outs w out_path
          \<and> outs w' (out_path @ ''.bak'') = outs w (out_path @ ''.bak''))
       \<or> (\<exists>ck u w0 fin w1.
            load_checkpoint env project w = Inr ck
            \<and> open_append env (out_path @ ''.tmp'') w = (Inr u, w0)
            \<and> scan env project (default_jql project jql) (out_path @ ''.tmp'')
                 (ck_startAt ck) (ck_processed ck) None w0 = Some (Inr fin, w1)
            \<and> finalize env out_path w1 = (r, w'))"
proof (cases "load_checkpoint env project w")
  case (Inl e)
  with run show ?thesis by (auto simp: scrape_project_def)
next
  case (Inr ck)
  obtain ro w0 where op: "open_append env (out_path @ ''.tmp'') w = (ro, w0)"
    by (cases "open_append env (out_path @ ''.tmp'') w")
  show ?thesis
  proof (cases ro)
    case (Inl e)
    with run Inr op open_append_failed[OF op[unfolded Inl]] show ?thesis
      by (auto simp: scrape_project_def)
  next
    case opened: (Inr u)
    note w0 = open_append_done[OF op[unfolded opened]]
    have t0: "trace w0 = trace w" by (simp add: w0)
    note st = same_trace[OF t0]
    show ?thesis
    proof (cases "scan env project (default_jql project jql) (out_path @ ''.tmp'')
                    (ck_startAt ck) (ck_processed ck) None w0")
      case None
      with run Inr op opened show ?thesis by (simp add: scrape_project_def)
    next
      case (Some a)
      obtain rs w1 where a: "a = (rs, w1)" by (cases a)
      note sc = Some[unfolded a]
      from scan_scan_only[OF sc] have so: "scan_only project (out_path @ ''.tmp'') w0 w1" by simp
      show ?thesis
      proof (cases rs)
        case (Inl e)
        with run Inr op opened sc have r: "r = Inl e" "w' = w1"
          by (simp_all add: scrape_project_def)
        from so have e: "extends w w1" and l: "list_all (is_scan_event project (out_path @ ''.tmp'')) (since w w1)"
          and o: "\<forall>p. p \<noteq> out_path @ ''.tmp'' \<longrightarrow> outs w1 p = outs w0 p"
          using st[of w1] by (simp_all add: scan_only_def)
        from o have "outs w1 out_path = outs w out_path"
          "outs w1 (out_path @ ''.bak'') = outs w (out_path @ ''.bak'')"
          by (simp_all add: w0)
        with e renames_scan[OF l] r show ?thesis by simp
      next
        case (Inr fin)
        with run \<open>load_checkpoint env project w = Inr ck\<close> op opened sc
        have "finalize env out_path w1 = (r, w')" by (simp add: scrape_project_def)
        with \<open>load_checkpoint env project w = Inr ck\<close> op opened sc Inr show ?thesis by blast
      qed
    qed
  qed
qed

subsection \<open>The claims about the scan\<close>

text \<open>The definitions unfolded to run the program on a concrete input.\<close>

lemmas run_simps = jira_get_def jira_loop.simps session_get_def sent_def emit_def
  raises_for_status_def fetch_comments_def parse_comments_def key_text_def comment_of_def
  process_item_def issue_to_record_def html_to_text_def safe_parse_date_def py_strip_def
  is_space_def nl2_def append_line_def lines_of_def save_checkpoint_def checkpoint_file_def
  stop_condition_def seen_total_def DEFAULT_MAX_RESULTS_def time_sleep_def backoff_sleep_def
  backoff_delay_def jitter_def page_of_def mk_issue_def no_comments_def fresh_def lib_error_def
  page_issues_def warned_def comments_or_none_def no_fields_def named_def Let_def

lemma plain_record_of_mk_issue:
  "issue_to_record (env_of srv) (mk_issue k) [] = Inr (plain_record k)"
  by (simp add: run_simps plain_record_def)

text \<open>
  C1. When the page fetched at the offset is a JSON object whose \<^verbatim>\<open>issues\<close> are missing,
  \<^verbatim>\<open>null\<close> or the empty list, the scan returns at once with the offset and the processed
  keys it had, in the state reached by fetching that page: since the scan began only the
  requests and sleeps of that fetch happened (no item, no checkpoint, no further page),
  whatever total the page reports and whatever total was seen before.
\<close>

theorem empty_page_stops:
  assumes "jira_get env (Search jql startAt DEFAULT_MAX_RESULTS) 6 w = Some (Inr (JObject tot iss cms), w1)"
    and "iss = Missing \<or> iss = Null \<or> iss = Object []"
  shows "scan env project jql out_tmp startAt processed total_seen w = Some (Inr (startAt, processed), w1)
         \<and> net_only w w1"
proof -
  from assms(2) have "page_issues (JObject tot iss cms) = Inr []"
    by (auto simp: page_issues_def)
  with assms(1) have "scan env project jql out_tmp startAt processed total_seen w = Some (Inr (startAt, processed), w1)"
    by (subst scan.simps) simp
  with jira_get_net_only[OF assms(1)] show ?thesis by simp
qed

text \<open>The server reports a total of 5 but has no issue at offset 1: the scan stops.\<close>

theorem empty_page_stops_witness:
  "scan (env_of (page_server [mk_issue ''A''] (Some 5))) ''HADOOP'' ''project = HADOOP''
       ''out.jsonl.tmp'' 1 {Some ''A''} None fresh
     = Some (Inr (1, {Some ''A''}),
             \<lparr>clock = 1, draws = 0, ckpts = Map.empty, outs = Map.empty,
              trace = [HttpGet (Search ''project = HADOOP'' 1 100)]\<rparr>)"
proof -
  have g: "jira_get (env_of (page_server [mk_issue ''A''] (Some 5)))
             (Search ''project = HADOOP'' 1 DEFAULT_MAX_RESULTS) 6 fresh
           = Some (Inr (JObject (Some 5) (Object []) Missing),
                   \<lparr>clock = 1, draws = 0, ckpts = Map.empty, outs = Map.empty,
                    trace = [HttpGet (Search ''project = HADOOP'' 1 100)]\<rparr>)"
    by (simp add: run_simps)
  from empty_page_stops[OF g, of "''HADOOP''" "''out.jsonl.tmp''" "{Some ''A''}" None]
  show ?thesis by simp
qed

text \<open>
  C2. An issue whose key is in the processed set is skipped: the state is unchanged (no
  request for its comments, no line appended) and so is the set. The processed set only
  grows over the items of a page. Over a scan the checkpoints saved never lower the
  offset and never lose a key, and the offset and the set the scan returns are at least
  those it started with.
\<close>

theorem processed_keys_skipped:
  "(i_key issue \<in> processed \<longrightarrow>
      process_item env out_tmp issue processed w = Some (Inr processed, w))
   \<and> (process_items env out_tmp issues processed w = Some (Inr p2, w2) \<longrightarrow> processed \<subseteq> p2)
   \<and> (scan env project jql out_tmp startAt processed total_seen w = Some (r, w3) \<longrightarrow>
        saves_mono startAt processed (since w w3)
        \<and> (\<forall>s p. r = Inr (s, p) \<longrightarrow> startAt \<le> s \<and> processed \<subseteq> p))"
proof -
  have a: "i_key issue \<in> processed \<longrightarrow>
      process_item env out_tmp issue processed w = Some (Inr processed, w)"
    by (simp add: process_item_def)
  have b: "process_items env out_tmp issues processed w = Some (Inr p2, w2) \<longrightarrow> processed \<subseteq> p2"
    using process_items_keys[of env out_tmp issues processed w p2 w2] by simp
  have c: "scan env project jql out_tmp startAt processed total_seen w = Some (r, w3) \<longrightarrow>
        saves_mono startAt processed (since w w3)
        \<and> (\<forall>s p. r = Inr (s, p) \<longrightarrow> startAt \<le> s \<and> processed \<subseteq> p)"
  proof
    assume run: "scan env project jql out_tmp startAt processed total_seen w = Some (r, w3)"
    from scan_trace[OF run] have "saves_mono startAt processed (since w w3)" by simp
    moreover have "\<forall>s p. r = Inr (s, p) \<longrightarrow> startAt \<le> s \<and> processed \<subseteq> p"
      using scan_result_mono[OF run] by simp
    ultimately show "saves_mono startAt processed (since w w3)
        \<and> (\<forall>s p. r = Inr (s, p) \<longrightarrow> startAt \<le> s \<and> processed \<subseteq> p)" by simp
  qed
  from a b c show ?thesis by simp
qed

text \<open>
  Resuming with the processed set \<open>{A}\<close> over the page \<open>[A, B, C]\<close>: no request for the
  comments of \<open>A\<close>, and only the records of \<open>B\<close> and \<open>C\<close> are appended.
\<close>

theorem processed_keys_skipped_witness:
  "scan (env_of (page_server [mk_issue ''A'', mk_issue ''B'', mk_issue ''C''] (Some 3)))
       ''HADOOP'' ''project = HADOOP'' ''out.jsonl.tmp'' 0 {Some ''A''} None
       (fresh\<lparr>outs := [''out.jsonl.tmp'' \<mapsto> []]\<rparr>)
     = Some (Inr (3, {Some ''C'', Some ''B'', Some ''A''}),
             \<lparr>clock = 3, draws = 0,
              ckpts = [''checkpoint-HADOOP.json'' \<mapsto>
                         \<lparr>ck_startAt = 3, ck_processed = {Some ''C'', Some ''B'', Some ''A''}\<rparr>],
              outs = [''out.jsonl.tmp'' \<mapsto> [plain_record ''B'', plain_record ''C'']],
              trace = [HttpGet (Search ''project = HADOOP'' 0 100),
                       HttpGet (CommentsOf ''B''), AppendLine ''out.jsonl.tmp'' (plain_record ''B''),
                       HttpGet (CommentsOf ''C''), AppendLine ''out.jsonl.tmp'' (plain_record ''C''),
                       SaveCheckpoint ''checkpoint-HADOOP.json''
                         \<lparr>ck_startAt = 3, ck_processed = {Some ''C'', Some ''B'', Some ''A''}\<rparr>]\<rparr>)"
  using processed_keys_skipped[of "mk_issue ''A''" "{Some ''A''}"
          "env_of (page_server [mk_issue ''A'', mk_issue ''B'', mk_issue ''C''] (Some 3))"
          "''out.jsonl.tmp''"
          "\<lparr>clock = 1, draws = 0, ckpts = Map.empty, outs = [''out.jsonl.tmp'' \<mapsto> []],
            trace = [HttpGet (Search ''project = HADOOP'' 0 100)]\<rparr>"]
  by (simp add: scan.simps run_simps plain_record_def)

text \<open>
  C3. After a page with at least one issue, once its items are handled and its checkpoint
  is saved: the checkpoint holds the offset advanced by the number of issues of the page
  (whatever the page size requested) and the processed set; it is the only checkpoint
  saved since the page was requested, none being saved while the items were handled; and
  the scan stops there exactly when the total is known and not above the advanced
  offset, and otherwise sleeps half a second and goes on from the advanced offset.
\<close>

theorem page_advances_offset_and_saves_once:
  assumes g: "jira_get env (Search jql startAt DEFAULT_MAX_RESULTS) 6 w = Some (Inr data, w1)"
    and pg: "page_issues data = Inr issues" and ne: "issues \<noteq> []"
    and pi: "process_items env out_tmp issues processed w1 = Some (Inr processed1, w2)"
    and sv: "save_checkpoint env project
               \<lparr>ck_startAt = startAt + int (length issues), ck_processed = processed1\<rparr> w2
             = (Inr u, w3)"
  shows "scan env project jql out_tmp startAt processed total_seen w =
           (if stop_condition (seen_total total_seen data) (startAt + int (length issues))
            then Some (Inr (startAt + int (length issues), processed1), w3)
            else (case time_sleep env 0.5 w3 of
                    (Inl e, w4) \<Rightarrow> Some (Inl e, w4)
                  | (Inr v, w4) \<Rightarrow>
                      scan env project jql out_tmp (startAt + int (length issues)) processed1
                        (seen_total total_seen data) w4))
         \<and> saves (since w w2) = []
         \<and> saves (since w w3) =
             [\<lparr>ck_startAt = startAt + int (length issues), ck_processed = processed1\<rparr>]
         \<and> ckpts w3 (checkpoint_file project) =
             Some \<lparr>ck_startAt = startAt + int (length issues), ck_processed = processed1\<rparr>
         \<and> (stop_condition (seen_total total_seen data) (startAt + int (length issues))
              \<longleftrightarrow> (\<exists>t. seen_total total_seen data = Some t \<and> t \<le> startAt + int (length issues)))"
proof -
  have a: "scan env project jql out_tmp startAt processed total_seen w =
           (if stop_condition (seen_total total_seen data) (startAt + int (length issues))
            then Some (Inr (startAt + int (length issues), processed1), w3)
            else (case time_sleep env 0.5 w3 of
                    (Inl e, w4) \<Rightarrow> Some (Inl e, w4)
                  | (Inr v, w4) \<Rightarrow>
                      scan env project jql out_tmp (startAt + int (length issues)) processed1
                        (seen_total total_seen data) w4))"
    using g pg ne pi sv by (subst scan.simps) simp
  note ps = page_saved[OF g pi sv]
  have b: "saves (since w w2) = []" using ps(3) by (rule saves_items)
  have c: "saves (since w w3) =
             [\<lparr>ck_startAt = startAt + int (length issues), ck_processed = processed1\<rparr>]"
    unfolding ps(2) using b by simp
  have d: "ckpts w3 (checkpoint_file project) =
             Some \<lparr>ck_startAt = startAt + int (length issues), ck_processed = processed1\<rparr>"
    using save_checkpoint_done[OF sv] by (simp add: emit_def)
  have e: "stop_condition (seen_total total_seen data) (startAt + int (length issues))
              \<longleftrightarrow> (\<exists>t. seen_total total_seen data = Some t \<and> t \<le> startAt + int (length issues))"
    by (simp add: stop_condition_def split: option.splits)
  from a b c d e show ?thesis by simp
qed

text \<open>A page of three issues and a total of 3: one checkpoint with offset 3, and the scan stops.\<close>

theorem page_advances_offset_and_saves_once_witness:
  "scan (env_of (page_server [mk_issue ''A'', mk_issue ''B'', mk_issue ''C''] (Some 3)))
       ''HADOOP'' ''project = HADOOP'' ''out.jsonl.tmp'' 0 {} None
       (fresh\<lparr>outs := [''out.jsonl.tmp'' \<mapsto> []]\<rparr>)
     = Some (Inr (3, {Some ''C'', Some ''B'', Some ''A''}),
             \<lparr>clock = 4, draws = 0,
              ckpts = [''checkpoint-HADOOP.json'' \<mapsto>
                         \<lparr>ck_startAt = 3, ck_processed = {Some ''C'', Some ''B'', Some ''A''}\<rparr>],
              outs = [''out.jsonl.tmp'' \<mapsto> [plain_record ''A'', plain_record ''B'', plain_record ''C'']],
              trace = [HttpGet (Search ''project = HADOOP'' 0 100),
                       HttpGet (CommentsOf ''A''), AppendLine ''out.jsonl.tmp'' (plain_record ''A''),
                       HttpGet (CommentsOf ''B''), AppendLine ''out.jsonl.tmp'' (plain_record ''B''),
                       HttpGet (CommentsOf ''C''), AppendLine ''out.jsonl.tmp'' (plain_record ''C''),
                       SaveCheckpoint ''checkpoint-HADOOP.json''
                         \<lparr>ck_startAt = 3, ck_processed = {Some ''C'', Some ''B'', Some ''A''}\<rparr>]\<rparr>)"
proof -
  let ?env = "env_of (page_server [mk_issue ''A'', mk_issue ''B'', mk_issue ''C''] (Some 3))"
  let ?w = "fresh\<lparr>outs := [''out.jsonl.tmp'' \<mapsto> []]\<rparr>"
  let ?w1 = "\<lparr>clock = 1, draws = 0, ckpts = Map.empty, outs = [''out.jsonl.tmp'' \<mapsto> []],
              trace = [HttpGet (Search ''project = HADOOP'' 0 100)]\<rparr>"
  let ?w2 = "\<lparr>clock = 4, draws = 0, ckpts = Map.empty,
              outs = [''out.jsonl.tmp'' \<mapsto> [plain_record ''A'', plain_record ''B'', plain_record ''C'']],
              trace = [HttpGet (Search ''project = HADOOP'' 0 100),
                       HttpGet (CommentsOf ''A''), AppendLine ''out.jsonl.tmp'' (plain_record ''A''),
                       HttpGet (CommentsOf ''B''), AppendLine ''out.jsonl.tmp'' (plain_record ''B''),
                       HttpGet (CommentsOf ''C''), AppendLine ''out.jsonl.tmp'' (plain_record ''C'')]\<rparr>"
  let ?c = "\<lparr>ck_startAt = 3, ck_processed = {Some ''C'', Some ''B'', Some ''A''}\<rparr>"
  have g: "jira_get ?env (Search ''project = HADOOP'' 0 DEFAULT_MAX_RESULTS) 6 ?w
           = Some (Inr (JObject (Some 3) (Object [mk_issue ''A'', mk_issue ''B'', mk_issue ''C'']) Missing), ?w1)"
    by (simp add: run_simps)
  have pg: "page_issues (JObject (Some 3) (Object [mk_issue ''A'', mk_issue ''B'', mk_issue ''C'']) Missing)
            = Inr [mk_issue ''A'', mk_issue ''B'', mk_issue ''C'']"
    by (simp add: page_issues_def)
  have pi: "process_items ?env ''out.jsonl.tmp'' [mk_issue ''A'', mk_issue ''B'', mk_issue ''C''] {} ?w1
            = Some (Inr {Some ''C'', Some ''B'', Some ''A''}, ?w2)"
    by (simp add: run_simps plain_record_def)
  have sv: "save_checkpoint ?env ''HADOOP''
              \<lparr>ck_startAt = 0 + int (length [mk_issue ''A'', mk_issue ''B'', mk_issue ''C'']),
               ck_processed = {Some ''C'', Some ''B'', Some ''A''}\<rparr> ?w2
            = (Inr (), ?w2\<lparr>ckpts := [''checkpoint-HADOOP.json'' \<mapsto> ?c],
                           trace := trace ?w2 @ [SaveCheckpoint ''checkpoint-HADOOP.json'' ?c]\<rparr>)"
    by (simp add: run_simps)
  from page_advances_offset_and_saves_once[OF g pg _ pi sv, where total_seen = None]
  show ?thesis by (simp add: run_simps)
qed

text \<open>
  C8. When fetching the comments of an issue ends in an exception (of the transport once
  its retries are used up, or of reading the body), the issue is handled as an issue
  without comments, after a warning: the record is assembled from the empty list of
  comments and, when it is assembled and written, it is the one line appended, the only
  warning is that of the failure, the key joins the processed set and the rest of the
  page is handled next.
\<close>

theorem comment_failure_degrades:
  assumes f: "fetch_comments env (i_key issue) w = Some (Inl e, w1)"
    and k: "i_key issue \<notin> processed"
  shows "process_item env out_tmp issue processed w =
           (case issue_to_record env issue [] of
              Inl x \<Rightarrow> Some (Inl x, emit (Warn (i_key issue) e) w1)
            | Inr r \<Rightarrow>
                (case append_line env out_tmp r (emit (Warn (i_key issue) e) w1) of
                   (Inl x, w2) \<Rightarrow> Some (Inl x, w2)
                 | (Inr u, w2) \<Rightarrow> Some (Inr (insert (i_key issue) processed), w2)))
         \<and> (\<forall>r u w2. issue_to_record env issue [] = Inr r
                \<and> append_line env out_tmp r (emit (Warn (i_key issue) e) w1) = (Inr u, w2) \<longrightarrow>
              r_comments r = [] \<and> r_key r = i_key issue
              \<and> warnings (since w w2) = [(i_key issue, e)]
              \<and> appended (since w w2) = [r]
              \<and> process_item env out_tmp issue processed w =
                  Some (Inr (insert (i_key issue) processed), w2)
              \<and> process_items env out_tmp (issue # rest) processed w =
                  process_items env out_tmp rest (insert (i_key issue) processed) w2)"
proof -
  have a: "process_item env out_tmp issue processed w =
           (case issue_to_record env issue [] of
              Inl x \<Rightarrow> Some (Inl x, emit (Warn (i_key issue) e) w1)
            | Inr r \<Rightarrow>
                (case append_line env out_tmp r (emit (Warn (i_key issue) e) w1) of
                   (Inl x, w2) \<Rightarrow> Some (Inl x, w2)
                 | (Inr u, w2) \<Rightarrow> Some (Inr (insert (i_key issue) processed), w2)))"
    using f k
    by (simp add: process_item_def warned_def comments_or_none_def split: sum.splits prod.splits)
  have b: "r_comments r = [] \<and> r_key r = i_key issue
              \<and> warnings (since w w2) = [(i_key issue, e)]
              \<and> appended (since w w2) = [r]
              \<and> process_item env out_tmp issue processed w =
                  Some (Inr (insert (i_key issue) processed), w2)
              \<and> process_items env out_tmp (issue # rest) processed w =
                  process_items env out_tmp rest (insert (i_key issue) processed) w2"
    if rec: "issue_to_record env issue [] = Inr r"
      and al: "append_line env out_tmp r (emit (Warn (i_key issue) e) w1) = (Inr u, w2)"
    for r u w2
  proof -
    define ww where "ww = emit (Warn (i_key issue) e) w1"
    have pi: "process_item env out_tmp issue processed w =
                Some (Inr (insert (i_key issue) processed), w2)"
      using a rec al by simp
    have n: "net_only w w1" using fetch_comments_net_only[OF f] .
    then have e1: "extends w w1" and n1: "list_all is_net (since w w1)"
      by (simp_all add: net_only_def)
    have e2: "extends w1 ww" and s2: "since w1 ww = [Warn (i_key issue) e]"
      using since_emit[of w1 "Warn (i_key issue) e"] by (simp_all add: ww_def)
    have e3: "extends ww w2" and s3: "since ww w2 = [AppendLine out_tmp r]"
      using since_append_line[OF al] by (simp_all add: ww_def)
    have e12: "extends w ww" and s12: "since w ww = since w w1 @ [Warn (i_key issue) e]"
      using extends_trans[OF e1 e2] s2 by simp_all
    have s: "since w w2 = since w w1 @ [Warn (i_key issue) e, AppendLine out_tmp r]"
      using extends_trans[OF e12 e3] s12 s3 by simp
    have wn: "warnings (since w w2) = [(i_key issue, e)]"
      unfolding s using warnings_net[OF n1] by simp
    have ap: "appended (since w w2) = [r]"
      unfolding s using appended_net[OF n1] by simp
    have ps: "process_items env out_tmp (issue # rest) processed w =
                  process_items env out_tmp rest (insert (i_key issue) processed) w2"
      using pi by simp
    from issue_to_record_comments[OF rec] issue_to_record_key[OF rec] wn ap pi ps
    show ?thesis by simp
  qed
  from a b show ?thesis by blast
qed

text \<open>
  The total is 2 and the comment endpoint of \<open>B\<close> answers 500 to all seven attempts:
  the output holds the records of \<open>A\<close> and \<open>B\<close>, the latter without comments, there is one
  warning, and the checkpoint is saved.
\<close>

theorem comment_failure_degrades_witness:
  "scan (env_of (failing_comments_server ''B'' [mk_issue ''A'', mk_issue ''B''] (Some 2)))
       ''HADOOP'' ''project = HADOOP'' ''out.jsonl.tmp'' 0 {} None
       (fresh\<lparr>outs := [''out.jsonl.tmp'' \<mapsto> []]\<rparr>)
     = Some (Inr (2, {Some ''B'', Some ''A''}),
             \<lparr>clock = 9, draws = 6,
              ckpts = [''checkpoint-HADOOP.json'' \<mapsto>
                         \<lparr>ck_startAt = 2, ck_processed = {Some ''B'', Some ''A''}\<rparr>],
              outs = [''out.jsonl.tmp'' \<mapsto> [plain_record ''A'', plain_record ''B'']],
              trace = [HttpGet (Search ''project = HADOOP'' 0 100),
                       HttpGet (CommentsOf ''A''), AppendLine ''out.jsonl.tmp'' (plain_record ''A''),
                       HttpGet (CommentsOf ''B''), Sleep (1 / 2),
                       HttpGet (CommentsOf ''B''), Sleep 1,
                       HttpGet (CommentsOf ''B''), Sleep 2,
                       HttpGet (CommentsOf ''B''), Sleep 4,
                       HttpGet (CommentsOf ''B''), Sleep 8,
                       HttpGet (CommentsOf ''B''), Sleep 16,
                       HttpGet (CommentsOf ''B''),
                       Warn (Some ''B'') (HTTPError 500),
                       AppendLine ''out.jsonl.tmp'' (plain_record ''B''),
                       SaveCheckpoint ''checkpoint-HADOOP.json''
                         \<lparr>ck_startAt = 2, ck_processed = {Some ''B'', Some ''A''}\<rparr>]\<rparr>)"
proof -
  let ?env = "env_of (failing_comments_server ''B'' [mk_issue ''A'', mk_issue ''B''] (Some 2))"
  let ?w = "\<lparr>clock = 2, draws = 0, ckpts = Map.empty,
             outs = [''out.jsonl.tmp'' \<mapsto> [plain_record ''A'']],
             trace = [HttpGet (Search ''project = HADOOP'' 0 100),
                      HttpGet (CommentsOf ''A''), AppendLine ''out.jsonl.tmp'' (plain_record ''A'')]\<rparr>"
  let ?w1 = "\<lparr>clock = 9, draws = 6, ckpts = Map.empty,
             outs = [''out.jsonl.tmp'' \<mapsto> [plain_record ''A'']],
             trace = [HttpGet (Search ''project = HADOOP'' 0 100),
                      HttpGet (CommentsOf ''A''), AppendLine ''out.jsonl.tmp'' (plain_record ''A''),
                      HttpGet (CommentsOf ''B''), Sleep (1 / 2),
                      HttpGet (CommentsOf ''B''), Sleep 1,
                      HttpGet (CommentsOf ''B''), Sleep 2,
                      HttpGet (CommentsOf ''B''), Sleep 4,
                      HttpGet (CommentsOf ''B''), Sleep 8,
                      HttpGet (CommentsOf ''B''), Sleep 16,
                      HttpGet (CommentsOf ''B'')]\<rparr>"
  have f: "fetch_comments ?env (i_key (mk_issue ''B'')) ?w = Some (Inl (HTTPError 500), ?w1)"
    by (simp add: run_simps)
  have k: "i_key (mk_issue ''B'') \<notin> {Some ''A''}"
    by (simp add: mk_issue_def)
  from comment_failure_degrades[OF f k, of "''out.jsonl.tmp''"]
  have "process_item ?env ''out.jsonl.tmp'' (mk_issue ''B'') {Some ''A''} ?w =
          Some (Inr {Some ''B'', Some ''A''},
                ?w1\<lparr>outs := [''out.jsonl.tmp'' \<mapsto> [plain_record ''A'', plain_record ''B'']],
                     trace := trace ?w1 @ [Warn (Some ''B'') (HTTPError 500),
                                          AppendLine ''out.jsonl.tmp'' (plain_record ''B'')]\<rparr>)"
    by (simp add: run_simps plain_record_def)
  then show ?thesis
    by (simp add: scan.simps run_simps plain_record_def)
qed

text \<open>
  C9. In a run of \<^verbatim>\<open>scrape_project\<close> that returns or raises: a rename happens only after
  a scan that ran to its end; a file that was at the destination keeps its content, at
  the destination or at the backup path; when there was no file at the destination the
  backup path is left as it was; and in a run that returns, the renames are the prior
  output to the backup path (when there was one) and then the working file to the
  destination, which then holds the lines of the working file.
\<close>

theorem finalize_keeps_previous_output:
  assumes run: "scrape_project env project out_path jql w = Some (r, w')"
    and apart: "out_path \<noteq> checkpoint_file project"
      "out_path \<noteq> checkpoint_file project @ ''.tmp''"
  shows "(renames (since w w') \<noteq> [] \<longrightarrow>
            (\<exists>ck u w0 fin w1.
               load_checkpoint env project w = Inr ck
               \<and> open_append env (out_path @ ''.tmp'') w = (Inr u, w0)
               \<and> scan env project (default_jql project jql) (out_path @ ''.tmp'')
                    (ck_startAt ck) (ck_processed ck) None w0 = Some (Inr fin, w1)
               \<and> finalize env out_path w1 = (r, w')))
         \<and> (\<forall>old. outs w out_path = Some old \<longrightarrow>
               outs w' out_path = Some old \<or> outs w' (out_path @ ''.bak'') = Some old)
         \<and> (outs w out_path = None \<longrightarrow>
               outs w' (out_path @ ''.bak'') = outs w (out_path @ ''.bak''))
         \<and> (r = Inr () \<longrightarrow>
               renames (since w w') =
                 (if outs w out_path \<noteq> None
                  then [(out_path, out_path @ ''.bak''), (out_path @ ''.tmp'', out_path)]
                  else [(out_path @ ''.tmp'', out_path)])
               \<and> outs w' out_path =
                   Some (lines_of w (out_path @ ''.tmp'') @ appended (since w w'))
               \<and> outs w' (out_path @ ''.tmp'') = None)"
proof -
  from scrape_project_cases[OF run]
  consider (early) "extends w w'" "renames (since w w') = []" "\<exists>e. r = Inl e"
      "outs w' out_path = outs w out_path"
      "outs w' (out_path @ ''.bak'') = outs w (out_path @ ''.bak'')"
    | (finalized) ck u w0 fin w1 where
      "load_checkpoint env project w = Inr ck"
      "open_append env (out_path @ ''.tmp'') w = (Inr u, w0)"
      "scan env project (default_jql project jql) (out_path @ ''.tmp'')
         (ck_startAt ck) (ck_processed ck) None w0 = Some (Inr fin, w1)"
      "finalize env out_path w1 = (r, w')"
    by blast
  then show ?thesis
  proof cases
    case early
    then show ?thesis by auto
  next
    case finalized
    note w0 = open_append_done[OF finalized(2)]
    have t0: "trace w0 = trace w" by (simp add: w0)
    note st = same_trace[OF t0]
    from scan_scan_only[OF finalized(3)]
    have so: "scan_only project (out_path @ ''.tmp'') w0 w1" by simp
    then have e1: "extends w w1"
      and l1: "list_all (is_scan_event project (out_path @ ''.tmp'')) (since w w1)"
      and o1: "\<forall>p. p \<noteq> out_path @ ''.tmp'' \<longrightarrow> outs w1 p = outs w0 p"
      and x1: "outs w1 (out_path @ ''.tmp'') \<noteq> None"
      and n1: "lines_of w1 (out_path @ ''.tmp'') =
                 lines_of w0 (out_path @ ''.tmp'') @ appended (since w w1)"
      using st[of w1] by (simp_all add: scan_only_def w0)
    from o1 have p1: "outs w1 out_path = outs w out_path"
      and b1: "outs w1 (out_path @ ''.bak'') = outs w (out_path @ ''.bak'')"
      by (simp_all add: w0)
    have l0: "lines_of w0 (out_path @ ''.tmp'') = lines_of w (out_path @ ''.tmp'')"
      by (simp add: w0 lines_of_def)
    note fe = finalize_effects[OF finalized(4)]
    have s: "since w w' = since w w1 @ since w1 w'"
      using extends_trans[OF e1 fe(1)] by simp
    have rn: "renames (since w w') = renames (since w1 w')"
      unfolding s using renames_scan[OF l1] by simp
    have ap: "appended (since w w') = appended (since w w1)"
      unfolding s using fe(2) by simp
    have a: "renames (since w w') \<noteq> [] \<longrightarrow>
            (\<exists>ck u w0 fin w1.
               load_checkpoint env project w = Inr ck
               \<and> open_append env (out_path @ ''.tmp'') w = (Inr u, w0)
               \<and> scan env project (default_jql project jql) (out_path @ ''.tmp'')
                    (ck_startAt ck) (ck_processed ck) None w0 = Some (Inr fin, w1)
               \<and> finalize env out_path w1 = (r, w'))"
      using finalized by blast
    have b: "\<forall>old. outs w out_path = Some old \<longrightarrow>
               outs w' out_path = Some old \<or> outs w' (out_path @ ''.bak'') = Some old"
      using fe(3) p1 by simp
    have c: "outs w out_path = None \<longrightarrow>
               outs w' (out_path @ ''.bak'') = outs w (out_path @ ''.bak'')"
      using fe(4) p1 b1 by simp
    have d: "r = Inr () \<longrightarrow>
               renames (since w w') =
                 (if outs w out_path \<noteq> None
                  then [(out_path, out_path @ ''.bak''), (out_path @ ''.tmp'', out_path)]
                  else [(out_path @ ''.tmp'', out_path)])
               \<and> outs w' out_path =
                   Some (lines_of w (out_path @ ''.tmp'') @ appended (since w w'))
               \<and> outs w' (out_path @ ''.tmp'') = None"
    proof
      assume r: "r = Inr ()"
      from fe(5)[OF r] have f5: "renames (since w1 w') =
             (if outs w1 out_path \<noteq> None
              then [(out_path, out_path @ ''.bak''), (out_path @ ''.tmp'', out_path)]
              else [(out_path @ ''.tmp'', out_path)])"
        "outs w' out_path = outs w1 (out_path @ ''.tmp'')"
        "outs w' (out_path @ ''.tmp'') = None"
        by simp_all
      from x1 have "outs w1 (out_path @ ''.tmp'') = Some (lines_of w1 (out_path @ ''.tmp''))"
        by (auto simp: lines_of_def)
      with f5 rn ap p1 n1 l0
      show "renames (since w w') =
                 (if outs w out_path \<noteq> None
                  then [(out_path, out_path @ ''.bak''), (out_path @ ''.tmp'', out_path)]
                  else [(out_path @ ''.tmp'', out_path)])
               \<and> outs w' out_path =
                   Some (lines_of w (out_path @ ''.tmp'') @ appended (since w w'))
               \<and> outs w' (out_path @ ''.tmp'') = None"
        by simp
    qed
    from a b c d show ?thesis by simp
  qed
qed

text \<open>A run over a prior output (moved to the backup path), and a run without one.\<close>

theorem finalize_keeps_previous_output_witness:
  "scrape_project (env_of (page_server [mk_issue ''A''] (Some 1))) ''HADOOP'' ''out.jsonl'' None
       (fresh\<lparr>outs := [''out.jsonl'' \<mapsto> [plain_record ''Z'']]\<rparr>)
     = Some (Inr (),
             \<lparr>clock = 2, draws = 0,
              ckpts = [''checkpoint-HADOOP.json'' \<mapsto> \<lparr>ck_startAt = 1, ck_processed = {Some ''A''}\<rparr>],
              outs = [''out.jsonl.bak'' \<mapsto> [plain_record ''Z''],
                      ''out.jsonl'' \<mapsto> [plain_record ''A'']],
              trace = [HttpGet (Search ''project = HADOOP ORDER BY created ASC'' 0 100),
                       HttpGet (CommentsOf ''A''), AppendLine ''out.jsonl.tmp'' (plain_record ''A''),
                       SaveCheckpoint ''checkpoint-HADOOP.json''
                         \<lparr>ck_startAt = 1, ck_processed = {Some ''A''}\<rparr>,
                       Replace ''out.jsonl'' ''out.jsonl.bak'',
                       Replace ''out.jsonl.tmp'' ''out.jsonl'']\<rparr>)
   \<and> scrape_project (env_of (page_server [mk_issue ''A''] (Some 1))) ''HADOOP'' ''out.jsonl'' None
       fresh
     = Some (Inr (),
             \<lparr>clock = 2, draws = 0,
              ckpts = [''checkpoint-HADOOP.json'' \<mapsto> \<lparr>ck_startAt = 1, ck_processed = {Some ''A''}\<rparr>],
              outs = [''out.jsonl'' \<mapsto> [plain_record ''A'']],
              trace = [HttpGet (Search ''project = HADOOP ORDER BY created ASC'' 0 100),
                       HttpGet (CommentsOf ''A''), AppendLine ''out.jsonl.tmp'' (plain_record ''A''),
                       SaveCheckpoint ''checkpoint-HADOOP.json''
                         \<lparr>ck_startAt = 1, ck_processed = {Some ''A''}\<rparr>,
                       Replace ''out.jsonl.tmp'' ''out.jsonl'']\<rparr>)"
proof -
  let ?env = "env_of (page_server [mk_issue ''A''] (Some 1))"
  let ?w = "fresh\<lparr>outs := [''out.jsonl'' \<mapsto> [plain_record ''Z'']]\<rparr>"
  have a: "scrape_project ?env ''HADOOP'' ''out.jsonl'' None ?w
     = Some (Inr (),
             \<lparr>clock = 2, draws = 0,
              ckpts = [''checkpoint-HADOOP.json'' \<mapsto> \<lparr>ck_startAt = 1, ck_processed = {Some ''A''}\<rparr>],
              outs = [''out.jsonl.bak'' \<mapsto> [plain_record ''Z''],
                      ''out.jsonl'' \<mapsto> [plain_record ''A'']],
              trace = [HttpGet (Search ''project = HADOOP ORDER BY created ASC'' 0 100),
                       HttpGet (CommentsOf ''A''), AppendLine ''out.jsonl.tmp'' (plain_record ''A''),
                       SaveCheckpoint ''checkpoint-HADOOP.json''
                         \<lparr>ck_startAt = 1, ck_processed = {Some ''A''}\<rparr>,
                       Replace ''out.jsonl'' ''out.jsonl.bak'',
                       Replace ''out.jsonl.tmp'' ''out.jsonl'']\<rparr>)"
    by (simp add: scrape_project_def load_checkpoint_def open_append_def default_jql_def
          finalize_def os_replace_def scan.simps run_simps plain_record_def fun_upd_twist)
  have b: "scrape_project ?env ''HADOOP'' ''out.jsonl'' None fresh
     = Some (Inr (),
             \<lparr>clock = 2, draws = 0,
              ckpts = [''checkpoint-HADOOP.json'' \<mapsto> \<lparr>ck_startAt = 1, ck_processed = {Some ''A''}\<rparr>],
              outs = [''out.jsonl'' \<mapsto> [plain_record ''A'']],
              trace = [HttpGet (Search ''project = HADOOP ORDER BY created ASC'' 0 100),
                       HttpGet (CommentsOf ''A''), AppendLine ''out.jsonl.tmp'' (plain_record ''A''),
                       SaveCheckpoint ''checkpoint-HADOOP.json''
                         \<lparr>ck_startAt = 1, ck_processed = {Some ''A''}\<rparr>,
                       Replace ''out.jsonl.tmp'' ''out.jsonl'']\<rparr>)"
    by (simp add: scrape_project_def load_checkpoint_def open_append_def default_jql_def
          finalize_def os_replace_def scan.simps run_simps plain_record_def fun_upd_twist)
  have apart: "''out.jsonl'' \<noteq> checkpoint_file ''HADOOP''"
    "''out.jsonl'' \<noteq> checkpoint_file ''HADOOP'' @ ''.tmp''"
    by (simp_all add: checkpoint_file_def)
  from finalize_keeps_previous_output[OF a apart] a b show ?thesis by simp
qed




end
